theory Spec2Isabelle
  imports
    Complex_Main
    "HOL-Library.Char_ord"
    "HOL-Library.List_Lexorder"
    "HOL-Library.Log_Nat"
    "HOL-Library.Product_Lexorder"
    "HOL-Library.Sublist"
begin

section \<open>Data model of the panel dataset\<close>

text \<open>
  A float64 cell of a pandas column: a finite value is the real number that it denotes,
  and the three special values of IEEE 754 are kept apart. \<open>NaN\<close> is also what
  pandas stores in a cell that has no value. The arithmetic of the percent change
  (\<open>fsub\<close>, \<open>fdiv\<close>, \<open>fmul\<close>, \<open>np_round_f64\<close>) rounds every result to
  float64, as the hardware does; the rounding of the displayed columns (\<open>np_round\<close>)
  is computed in exact arithmetic.
\<close>

datatype fval = Fin real | PosInf | NegInf | NaN

text \<open>
  One row of \<open>sales_data\<close> (\<open>FinalSalesAndIncome.parquet\<close>), with the columns the
  filter-and-reshape code reads. \<open>Recency\<close> is the column added at load time
  (\<open>app.py\<close> lines 78-79); it is overwritten by \<open>map_recency\<close> below.
\<close>

record row =
  Year :: int
  Municipality :: string
  PriceType :: string
  Recency :: nat
  AvgSalesPrice :: fval
  AvgSalesPriceIdx :: fval
  M2AffordedTotal :: fval
  YearsoBuy50M2Total :: fval

text \<open>The Python exceptions that the modelled code can raise.\<close>

datatype py_error = ValueError | UnboundLocalError | KeyError | IntCastingNaNError

section \<open>Recency indexer (\<open>app.py\<close> lines 50-81)\<close>

text \<open>
  \<open>Series.unique()\<close>: the distinct values in order of first appearance
  (\<open>remdups\<close> keeps the last occurrence of each value, hence the two reversals).
\<close>

definition unique :: "'a list \<Rightarrow> 'a list" where
  "unique xs = rev (remdups (rev xs))"

text \<open>
  \<open>unique_years\<close>: the distinct years of the rows that are not predictions
  (lines 52-57), then sorted in place with \<open>sort(reverse=True)\<close> (line 63).
\<close>

definition unique_years :: "row list \<Rightarrow> int list" where
  "unique_years sales_data =
     rev (sort (unique (map Year (filter (\<lambda>r. PriceType r \<noteq> ''Predicted price'') sales_data))))"

definition future_years :: "row list \<Rightarrow> int list" where
  "future_years sales_data =
     unique (map Year (filter (\<lambda>r. PriceType r = ''Predicted price'') sales_data))"

definition n_years :: "row list \<Rightarrow> nat" where
  "n_years sales_data = length (unique_years sales_data)"

text \<open>\<open>np.arange(1, n_years + 1)\<close>\<close>

definition n_possible_years :: "row list \<Rightarrow> nat list" where
  "n_possible_years sales_data = [1 ..< n_years sales_data + 1]"

text \<open>
  \<open>dict(zip(unique_years, n_possible_years))\<close>. A later pair of a Python \<open>dict\<close>
  overrides an earlier one with the same key, so the association list is read from
  its end.
\<close>

definition annual_recency :: "row list \<Rightarrow> int \<rightharpoonup> nat" where
  "annual_recency sales_data =
     map_of (rev (zip (unique_years sales_data) (n_possible_years sales_data)))"

text \<open>\<open>sales_data["Year"].map(annual_recency)\<close> followed by \<open>.fillna(0)\<close>, for one year.\<close>

definition recency_of :: "row list \<Rightarrow> int \<Rightarrow> nat" where
  "recency_of sales_data y = (case annual_recency sales_data y of Some k \<Rightarrow> k | None \<Rightarrow> 0)"

text \<open>The same for a whole table: the column \<open>Recency\<close> is (re)written in every row.\<close>

definition map_recency :: "row list \<Rightarrow> row list \<Rightarrow> row list" where
  "map_recency sales_data df = map (\<lambda>r. r\<lparr>Recency := recency_of sales_data (Year r)\<rparr>) df"

section \<open>Sidebar filters\<close>

text \<open>
  The widgets of the sidebar belong to the UI framework. Each filter function is
  modelled with the widget's answer as an extra last argument; what the function does
  before and after the widget call is the source's.
\<close>

text \<open>
  \<open>filter_price_type_new\<close> (lines 264-276). \<open>possible_entries.index(default_val)\<close>
  raises \<open>ValueError\<close> when the default is not an entry. The \<open>if\<close>/\<open>elif\<close> chain has
  no \<open>else\<close>: for any other name \<open>allowed_types\<close> is unbound at the \<open>return\<close>.
\<close>

definition filter_price_type_new :: "string list \<Rightarrow> string \<Rightarrow> string \<Rightarrow> py_error + string list" where
  "filter_price_type_new possible_entries default_val selected_combination =
     (if default_val \<notin> set possible_entries then Inl ValueError
      else if selected_combination = ''Historical data incl. estimates''
        then Inr [''Actual price'', ''Estimated price'']
      else if selected_combination = ''Historical data excl. estimates''
        then Inr [''Actual price'']
      else if selected_combination = ''Historical data and predictions''
        then Inr [''Actual price'', ''Estimated price'', ''Predicted price'']
      else Inl UnboundLocalError)"

definition price_type_combinations :: "string list" where
  "price_type_combinations =
     [''Historical data incl. estimates'',
      ''Historical data excl. estimates'',
      ''Historical data and predictions'']"

text \<open>The superscript two of the metric labels, as its two UTF-8 bytes.\<close>

definition sup2 :: string where
  "sup2 = [CHR 0xC2, CHR 0xB2]"

text \<open>
  \<open>filter_metric\<close> (lines 159-172). The result is an optional column name: the
  final \<open>else\<close> returns Python's \<open>None\<close>. The function has no raising branch.
\<close>

definition filter_metric :: "string \<Rightarrow> py_error + string option" where
  "filter_metric selected_metric =
     (if selected_metric = ''Actual price'' then Inr (Some ''AvgSalesPrice'')
      else if selected_metric = ''Price index'' then Inr (Some ''AvgSalesPriceIdx'')
      else if selected_metric = ''Buyable m'' @ sup2 @ '' with annual income''
        then Inr (Some ''M2AffordedTotal'')
      else if selected_metric = ''Years of income to buy 50 m'' @ sup2
        then Inr (Some ''YearsoBuy50M2Total'')
      else Inr None)"

section \<open>View builder of the page "Pricing by municipality" (lines 427-445)\<close>

text \<open>
  The three row filters of \<open>page_avg_by_mncp\<close>, in the source's order, and the
  (stable) sort by \<open>Year\<close>, descending.
\<close>

definition recency_filter :: "row list \<Rightarrow> nat \<Rightarrow> row list" where
  "recency_filter df max_recency = filter (\<lambda>r. Recency r \<le> max_recency) df"

definition page_avg_by_mncp_filter :: "row list \<Rightarrow> nat \<Rightarrow> string list \<Rightarrow> string list \<Rightarrow> row list" where
  "page_avg_by_mncp_filter df max_recency selected_locations price_types =
     (let data_to_display = recency_filter df max_recency;
          data_to_display = filter (\<lambda>r. Municipality r \<in> set selected_locations) data_to_display;
          data_to_display = filter (\<lambda>r. PriceType r \<in> set price_types) data_to_display
      in sort_key (\<lambda>r. - Year r) data_to_display)"

section \<open>Float arithmetic of the columns\<close>

text \<open>\<open>np.rint\<close>: the nearest integer, a tie going to the even one.\<close>

definition rint :: "real \<Rightarrow> int" where
  "rint x =
     (let f = \<lfloor>x\<rfloor>; d = x - of_int f
      in if d < 1 / 2 then f else if 1 / 2 < d then f + 1 else if even f then f else f + 1)"

text \<open>
  The float64 number nearest to a real number (IEEE 754 binary64, round to nearest, ties
  to even). \<open>ilog2 x\<close> is the exponent of the power of two at or below a positive
  \<open>x\<close>. The significand has 53 bits; below \<open>2 ^ - 1022\<close> the spacing stays that of
  the smallest normal numbers (gradual underflow), and a result of \<open>2 ^ 1024\<close> or more
  is an infinity.
\<close>

definition pow2 :: "int \<Rightarrow> real" where
  "pow2 e = (if 0 \<le> e then 2 ^ nat e else 1 / 2 ^ nat (- e))"

definition ilog2 :: "real \<Rightarrow> int" where
  "ilog2 x = (if 1 \<le> x then bitlen \<lfloor>x\<rfloor> - 1 else - bitlen (\<lceil>1 / x\<rceil> - 1))"

definition round_f64 :: "real \<Rightarrow> fval" where
  "round_f64 x =
     (if x = 0 then Fin 0
      else let e = max (ilog2 \<bar>x\<bar>) (- 1022) - 52;
               m = rint (\<bar>x\<bar> / pow2 e)
           in if 971 < e \<or> (e = 971 \<and> 2 ^ 53 \<le> m) then (if 0 < x then PosInf else NegInf)
              else Fin (if 0 < x then of_int m * pow2 e else - (of_int m * pow2 e)))"

text \<open>A real number that is a float64 number: rounding leaves it as it is.\<close>

definition is_f64 :: "real \<Rightarrow> bool" where
  "is_f64 x = (round_f64 x = Fin x)"

text \<open>
  Subtraction, division and multiplication of float64 values as numpy computes them
  elementwise: the exact result rounded to float64. No operation raises; a division by
  zero gives an infinity with the sign of the numerator, or \<open>NaN\<close> for \<open>0 / 0\<close>.
  Signed zeros are not modelled (a zero is the positive zero).
\<close>

fun fsub :: "fval \<Rightarrow> fval \<Rightarrow> fval" where
  "fsub NaN _ = NaN"
| "fsub _ NaN = NaN"
| "fsub (Fin a) (Fin b) = round_f64 (a - b)"
| "fsub (Fin _) PosInf = NegInf"
| "fsub (Fin _) NegInf = PosInf"
| "fsub PosInf PosInf = NaN"
| "fsub PosInf _ = PosInf"
| "fsub NegInf NegInf = NaN"
| "fsub NegInf _ = NegInf"

fun fdiv :: "fval \<Rightarrow> fval \<Rightarrow> fval" where
  "fdiv NaN _ = NaN"
| "fdiv _ NaN = NaN"
| "fdiv (Fin a) (Fin b) =
     (if b = 0 then (if a = 0 then NaN else if 0 < a then PosInf else NegInf)
      else round_f64 (a / b))"
| "fdiv (Fin _) _ = Fin 0"
| "fdiv PosInf (Fin b) = (if 0 \<le> b then PosInf else NegInf)"
| "fdiv NegInf (Fin b) = (if 0 \<le> b then NegInf else PosInf)"
| "fdiv _ _ = NaN"

fun fmul :: "fval \<Rightarrow> fval \<Rightarrow> fval" where
  "fmul NaN _ = NaN"
| "fmul _ NaN = NaN"
| "fmul (Fin a) (Fin b) = round_f64 (a * b)"
| "fmul (Fin a) PosInf = (if a = 0 then NaN else if 0 < a then PosInf else NegInf)"
| "fmul (Fin a) NegInf = (if a = 0 then NaN else if 0 < a then NegInf else PosInf)"
| "fmul PosInf (Fin b) = (if b = 0 then NaN else if 0 < b then PosInf else NegInf)"
| "fmul NegInf (Fin b) = (if b = 0 then NaN else if 0 < b then NegInf else PosInf)"
| "fmul PosInf PosInf = PosInf"
| "fmul PosInf NegInf = NegInf"
| "fmul NegInf PosInf = NegInf"
| "fmul NegInf NegInf = PosInf"

text \<open>
  \<open>np.round(v, decimals)\<close> in float64, step by step as numpy computes it: for no
  decimals \<open>rint\<close> alone; otherwise the product with the power of ten (rounded to
  float64), \<open>rint\<close>, and the quotient by the power of ten (rounded to float64).
  Infinities and \<open>NaN\<close> pass through.
\<close>

definition np_round_f64 :: "fval \<Rightarrow> nat \<Rightarrow> fval" where
  "np_round_f64 v decimals =
     (case v of
        Fin x \<Rightarrow>
          if decimals = 0 then Fin (of_int (rint x))
          else (case round_f64 (x * 10 ^ decimals) of
                  Fin z \<Rightarrow> round_f64 (of_int (rint z) / 10 ^ decimals)
                | w \<Rightarrow> w)
      | _ \<Rightarrow> v)"

text \<open>
  \<open>np.round(v, decimals)\<close> and \<open>Series.round(decimals)\<close> for the displayed columns,
  in exact arithmetic: scale by the power of ten, round to the nearest integer, scale
  back. Infinities and \<open>NaN\<close> pass through.
\<close>

definition np_round :: "fval \<Rightarrow> nat \<Rightarrow> fval" where
  "np_round v decimals =
     (case v of Fin x \<Rightarrow> Fin (of_int (rint (x * 10 ^ decimals)) / 10 ^ decimals) | _ \<Rightarrow> v)"

definition is_finite :: "fval \<Rightarrow> bool" where
  "is_finite v = (case v of Fin _ \<Rightarrow> True | _ \<Rightarrow> False)"

section \<open>Columns by name\<close>

text \<open>\<open>df[name]\<close> for the metric columns; \<open>None\<close> stands for a name that is no column (\<open>KeyError\<close>).\<close>

definition column :: "string \<Rightarrow> (row \<Rightarrow> fval) option" where
  "column c =
     (if c = ''AvgSalesPrice'' then Some AvgSalesPrice
      else if c = ''AvgSalesPriceIdx'' then Some AvgSalesPriceIdx
      else if c = ''M2AffordedTotal'' then Some M2AffordedTotal
      else if c = ''YearsoBuy50M2Total'' then Some YearsoBuy50M2Total
      else None)"

text \<open>\<open>df[name] = g(df[name])\<close>, for one row.\<close>

definition map_column :: "string \<Rightarrow> (fval \<Rightarrow> fval) \<Rightarrow> row \<Rightarrow> row" where
  "map_column c g r =
     (if c = ''AvgSalesPrice'' then r\<lparr>AvgSalesPrice := g (AvgSalesPrice r)\<rparr>
      else if c = ''AvgSalesPriceIdx'' then r\<lparr>AvgSalesPriceIdx := g (AvgSalesPriceIdx r)\<rparr>
      else if c = ''M2AffordedTotal'' then r\<lparr>M2AffordedTotal := g (M2AffordedTotal r)\<rparr>
      else if c = ''YearsoBuy50M2Total'' then r\<lparr>YearsoBuy50M2Total := g (YearsoBuy50M2Total r)\<rparr>
      else r)"

section \<open>Rounding of the metric at each call site\<close>

text \<open>Lines 447-453 (\<open>page_avg_by_mncp\<close>) and 1056-1062 (\<open>page_annual_price_overview\<close>).\<close>

definition page_avg_by_mncp_round :: "string \<Rightarrow> fval \<Rightarrow> fval" where
  "page_avg_by_mncp_round metric_for_use v =
     (if metric_for_use = ''AvgSalesPrice'' then np_round v 0 else np_round v 2)"

definition page_annual_price_overview_round :: "string \<Rightarrow> fval \<Rightarrow> fval" where
  "page_annual_price_overview_round metric_for_use v =
     (if metric_for_use = ''AvgSalesPrice'' then np_round v 0 else np_round v 2)"

text \<open>
  Lines 427-453 together: the filtered and sorted rows with the chosen metric rounded.
  The selection of the three columns (lines 438-444) raises \<open>KeyError\<close> for a name
  that is no column; the columns that it drops stay in the record of the model.
\<close>

definition page_avg_by_mncp_data ::
    "row list \<Rightarrow> nat \<Rightarrow> string list \<Rightarrow> string list \<Rightarrow> string \<Rightarrow> py_error + row list" where
  "page_avg_by_mncp_data df max_recency selected_locations price_types metric_for_use =
     (let data_to_display = page_avg_by_mncp_filter df max_recency selected_locations price_types
      in case column metric_for_use of
           None \<Rightarrow> Inl KeyError
         | Some _ \<Rightarrow>
             Inr (map (\<lambda>r. map_column metric_for_use (page_avg_by_mncp_round metric_for_use) r)
                      data_to_display))"

text \<open>Line 563 (\<open>page_afford_by_mncp\<close>): two decimals for either affordability metric.\<close>

definition page_afford_by_mncp_round :: "string \<Rightarrow> fval \<Rightarrow> fval" where
  "page_afford_by_mncp_round metric_for_use v = np_round v 2"

text \<open>
  Lines 914-920 (\<open>page_hist_changes\<close>), for one cell of a year column: \<open>round(0)\<close> and
  the cast to \<open>int\<close> for the price, which raises on a cell that is not finite;
  \<open>round(1)\<close> for the other metrics.
\<close>

definition page_hist_changes_round :: "string \<Rightarrow> fval \<Rightarrow> py_error + fval" where
  "page_hist_changes_round metric_for_use v =
     (if metric_for_use = ''AvgSalesPrice''
      then (if is_finite (np_round v 0) then Inr (np_round v 0) else Inl IntCastingNaNError)
      else Inr (np_round v 1))"

text \<open>Lines 1285-1286 (\<open>page_annual_afford_overview\<close>): \<open>M2AffordedTotal\<close> with no decimals.\<close>

definition page_annual_afford_overview_round :: "fval \<Rightarrow> fval" where
  "page_annual_afford_overview_round v = np_round v 0"

section \<open>Pivot and percent change of the page "Historical changes" (lines 893-920)\<close>

text \<open>
  The result of \<open>DataFrame.pivot(index="Municipality", columns="Year", values=...)\<close>:
  the sorted distinct municipalities, the sorted distinct years, and the value of each
  (municipality, year) pair that has a row. A pair with no row reads as \<open>NaN\<close>.
\<close>

record pivot_table =
  pindex :: "string list"
  pcolumns :: "int list"
  pvals :: "((string \<times> int) \<times> fval) list"

definition unstack :: "(row \<Rightarrow> fval) \<Rightarrow> row list \<Rightarrow> pivot_table" where
  "unstack f data =
     \<lparr>pindex = sort (unique (map Municipality data)),
      pcolumns = sort (unique (map Year data)),
      pvals = map (\<lambda>r. ((Municipality r, Year r), f r)) data\<rparr>"

text \<open>
  \<open>pivot\<close> raises \<open>KeyError\<close> for a value column that does not exist and
  \<open>ValueError\<close> ("Index contains duplicate entries") when two rows share their
  municipality and year.
\<close>

definition pivot :: "row list \<Rightarrow> string \<Rightarrow> py_error + pivot_table" where
  "pivot data vals =
     (case column vals of
        None \<Rightarrow> Inl KeyError
      | Some f \<Rightarrow>
          if \<not> distinct (map (\<lambda>r. (Municipality r, Year r)) data) then Inl ValueError
          else Inr (unstack f data))"

definition pcell :: "pivot_table \<Rightarrow> string \<Rightarrow> int \<Rightarrow> fval" where
  "pcell t m y = (case map_of (pvals t) (m, y) of Some v \<Rightarrow> v | None \<Rightarrow> NaN)"

text \<open>
  Lines 909-912: \<open>np.round(100 * ((ref - base) / base), 1)\<close>, every step in float64.
\<close>

definition pct_change_of :: "fval \<Rightarrow> fval \<Rightarrow> fval" where
  "pct_change_of ref base = np_round_f64 (fmul (Fin 100) (fdiv (fsub ref base) base)) 1"

text \<open>One line of the table that the page displays.\<close>

record change_row =
  mncp :: string
  base_val :: fval
  ref_val :: fval
  pct_change :: fval

text \<open>\<open>for col in [base_year, ref_year]: ...\<close> of lines 915-920, for one line of the table.\<close>

definition round_change_row :: "string \<Rightarrow> change_row \<Rightarrow> py_error + change_row" where
  "round_change_row metric_for_use c =
     (case page_hist_changes_round metric_for_use (base_val c) of
        Inl e \<Rightarrow> Inl e
      | Inr b \<Rightarrow>
          (case page_hist_changes_round metric_for_use (ref_val c) of
             Inl e \<Rightarrow> Inl e
           | Inr v \<Rightarrow> Inr (c\<lparr>base_val := b, ref_val := v\<rparr>)))"

text \<open>Running a fallible step over all lines: the first error is the result.\<close>

fun map_result :: "('a \<Rightarrow> py_error + 'b) \<Rightarrow> 'a list \<Rightarrow> py_error + 'b list" where
  "map_result g [] = Inr []"
| "map_result g (x # xs) =
     (case g x of
        Inl e \<Rightarrow> Inl e
      | Inr y \<Rightarrow> (case map_result g xs of Inl e \<Rightarrow> Inl e | Inr ys \<Rightarrow> Inr (y # ys)))"

text \<open>Lines 893-897: the rows of the two years with an allowed price type.\<close>

definition page_hist_changes_filter :: "row list \<Rightarrow> string list \<Rightarrow> int list \<Rightarrow> row list" where
  "page_hist_changes_filter df price_types relevant_years =
     (let data_to_display = filter (\<lambda>r. Year r \<in> set relevant_years) df
      in filter (\<lambda>r. PriceType r \<in> set price_types) data_to_display)"

text \<open>
  Line 900: \<open>sort_values(["Municipality", "Year"], ascending=False)\<close>, a stable sort
  on the pair of keys, descending.
\<close>

definition page_hist_changes_sorted :: "row list \<Rightarrow> row list" where
  "page_hist_changes_sorted data_to_display =
     rev (sort_key (\<lambda>r. (Municipality r, Year r)) (rev data_to_display))"

text \<open>
  The data part of \<open>page_hist_changes\<close>: filter, sort, pivot, read the two year
  columns (\<open>KeyError\<close> for a year that is no column of the pivot), compute the percent
  change, round the year columns. When the two years are the same, the table has one
  year column, which both \<open>base_val\<close> and \<open>ref_val\<close> read; the loop of lines 915-920
  then rounds that column twice, which gives what rounding once gives.
\<close>

definition page_hist_changes_table ::
    "row list \<Rightarrow> string list \<Rightarrow> int \<Rightarrow> int \<Rightarrow> string \<Rightarrow> py_error + change_row list" where
  "page_hist_changes_table df price_types base_year ref_year metric_for_use =
     (let relevant_years = [base_year, ref_year];
          data_to_display = page_hist_changes_filter df price_types relevant_years;
          data_to_display = page_hist_changes_sorted data_to_display
      in case pivot data_to_display metric_for_use of
           Inl e \<Rightarrow> Inl e
         | Inr t \<Rightarrow>
             if ref_year \<notin> set (pcolumns t) \<or> base_year \<notin> set (pcolumns t) then Inl KeyError
             else map_result (round_change_row metric_for_use)
                    (map (\<lambda>m. \<lparr>mncp = m,
                               base_val = pcell t m base_year,
                               ref_val = pcell t m ref_year,
                               pct_change = pct_change_of (pcell t m ref_year) (pcell t m base_year)\<rparr>)
                         (pindex t)))"

text \<open>
  Lines 922-959: the summary of the table by type of change, for the doughnut chart.
  \<open>np.select\<close> takes the first condition that holds; every comparison with \<open>NaN\<close>
  is false, which leaves the default "Unknown change". The national average is left out,
  the municipalities (\<open>nunique\<close>) of each type are counted, and
  \<open>drop_duplicates\<close> keeps one line for each type, in order of first appearance.
\<close>

definition txt_for_title :: "string \<Rightarrow> string" where
  "txt_for_title metric_for_use =
     (if metric_for_use = ''AvgSalesPrice'' then ''actual price''
      else if metric_for_use = ''M2AffordedTotal'' then ''buyable m'' @ sup2 @ '' with annual income''
      else if metric_for_use = ''YearsoBuy50M2Total'' then ''years of income to buy 50 m'' @ sup2
      else ''invalid selection'')"

definition flt0 :: "fval \<Rightarrow> bool" where
  "flt0 v = (case v of Fin x \<Rightarrow> x < 0 | NegInf \<Rightarrow> True | _ \<Rightarrow> False)"

definition feq0 :: "fval \<Rightarrow> bool" where
  "feq0 v = (case v of Fin x \<Rightarrow> x = 0 | _ \<Rightarrow> False)"

definition fgt0 :: "fval \<Rightarrow> bool" where
  "fgt0 v = (case v of Fin x \<Rightarrow> 0 < x | PosInf \<Rightarrow> True | _ \<Rightarrow> False)"

definition change_type :: "string \<Rightarrow> fval \<Rightarrow> string" where
  "change_type txt pct =
     (if flt0 pct then ''Decrease in '' @ txt
      else if feq0 pct then ''No change in '' @ txt
      else if fgt0 pct then ''Increase in '' @ txt
      else ''Unknown change'')"

definition page_hist_changes_chart :: "change_row list \<Rightarrow> string \<Rightarrow> (string \<times> nat) list" where
  "page_hist_changes_chart data_to_display metric_for_use =
     (let txt = txt_for_title metric_for_use;
          data_for_chart = map (\<lambda>c. (mncp c, change_type txt (pct_change c))) data_to_display;
          data_for_chart = filter (\<lambda>p. fst p \<noteq> ''National average'') data_for_chart
      in map (\<lambda>ct. (ct, length (remdups (map fst (filter (\<lambda>p. snd p = ct) data_for_chart)))))
           (unique (map snd data_for_chart)))"

section \<open>Top-N ranking of the page "Pricing overview" (lines 1053-1115)\<close>

text \<open>
  The order of float keys in a sort: \<open>-inf\<close>, the finite values, \<open>inf\<close>, and
  \<open>NaN\<close> after them.
\<close>

definition sort_rank :: "fval \<Rightarrow> nat \<times> real" where
  "sort_rank v = (case v of NegInf \<Rightarrow> (0, 0) | Fin x \<Rightarrow> (1, x) | PosInf \<Rightarrow> (2, 0) | NaN \<Rightarrow> (3, 0))"

text \<open>
  \<open>DataFrame.sort_values(column, ascending=...)\<close> on one float column. pandas splits
  off the rows whose key is \<open>NaN\<close>, which go last in their original order, hands the
  other keys (reversed, for a descending sort) to \<open>ndarray.argsort(kind="quicksort")\<close>,
  takes the rows at the positions that come back, and reverses them again for a
  descending sort. The sort itself is numpy's and no part of this repository: it is the
  parameter \<open>argsort\<close>, from the array of keys to the array of positions. It sees the
  keys only, never the other columns of a row.

  \<open>stable_argsort\<close> is the argsort that keeps equal keys in their order. numpy's
  quicksort sorts a short array (up to 16 elements) by insertion, which gives this
  order; on a longer array it partitions, and equal keys can change places.
\<close>

definition stable_argsort :: "fval list \<Rightarrow> nat list" where
  "stable_argsort a = sort_key (\<lambda>i. sort_rank (a ! i)) [0..<length a]"

definition sort_values ::
    "(fval list \<Rightarrow> nat list) \<Rightarrow> (row \<Rightarrow> fval) \<Rightarrow> bool \<Rightarrow> row list \<Rightarrow> row list" where
  "sort_values argsort f ascending df =
     (let non_nans = filter (\<lambda>r. f r \<noteq> NaN) df;
          nans = filter (\<lambda>r. f r = NaN) df;
          non_nans = (if ascending then non_nans else rev non_nans);
          indexer = argsort (map f non_nans);
          sorted_rows = map (\<lambda>i. non_nans ! i) indexer;
          sorted_rows = (if ascending then sorted_rows else rev sorted_rows)
      in sorted_rows @ nans)"

text \<open>Lines 1053-1062: the price-type filter and the rounding of the chosen metric.\<close>

definition page_annual_price_overview_data :: "row list \<Rightarrow> string list \<Rightarrow> string \<Rightarrow> py_error + row list" where
  "page_annual_price_overview_data df price_types metric_for_use =
     (let data_to_display = filter (\<lambda>r. PriceType r \<in> set price_types) df
      in case column metric_for_use of
           None \<Rightarrow> Inl KeyError
         | Some _ \<Rightarrow>
             Inr (map (\<lambda>r. map_column metric_for_use (page_annual_price_overview_round metric_for_use) r)
                      data_to_display))"

text \<open>
  Lines 1107-1115: the rows of the year, without the national average, sorted by
  \<open>AvgSalesPrice\<close> descending, cut to the first \<open>n_mncp_to_show\<close>, then sorted by the
  chosen metric ascending for the bar chart.
\<close>

definition top_n_most_expensive ::
    "(fval list \<Rightarrow> nat list) \<Rightarrow> row list \<Rightarrow> int \<Rightarrow> nat \<Rightarrow> string \<Rightarrow> py_error + row list" where
  "top_n_most_expensive argsort data_to_display year_to_show n_mncp_to_show metric_for_use =
     (let data_for_plot = filter (\<lambda>r. Year r = year_to_show) data_to_display;
          data_for_plot = filter (\<lambda>r. Municipality r \<noteq> ''National average'') data_for_plot;
          data_for_plot = sort_values argsort AvgSalesPrice False data_for_plot;
          data_for_plot = take n_mncp_to_show data_for_plot
      in case column metric_for_use of
           None \<Rightarrow> Inl KeyError
         | Some f \<Rightarrow> Inr (sort_values argsort f True data_for_plot))"

text \<open>The two steps together, as the page runs them.\<close>

definition page_annual_price_overview_top ::
    "(fval list \<Rightarrow> nat list) \<Rightarrow> row list \<Rightarrow> string list \<Rightarrow> int \<Rightarrow> nat \<Rightarrow> string
       \<Rightarrow> py_error + row list" where
  "page_annual_price_overview_top argsort df price_types year_to_show n_mncp_to_show metric_for_use =
     (case page_annual_price_overview_data df price_types metric_for_use of
        Inl e \<Rightarrow> Inl e
      | Inr data_to_display \<Rightarrow>
          top_n_most_expensive argsort data_to_display year_to_show n_mncp_to_show metric_for_use)"

section \<open>Table for the geo plot of the page "Pricing overview" (lines 1064-1070)\<close>

text \<open>
  A Python value that is a string or an integer. \<open>==\<close> between a string and an integer
  is \<open>False\<close>; the comparison of the column with the scalar is elementwise.
\<close>

datatype pyval = PyStr string | PyInt int

definition data_selected_year :: "row list \<Rightarrow> int \<Rightarrow> row list" where
  "data_selected_year data_to_display year_to_show =
     (let data_selected_year = filter (\<lambda>r. PyStr (PriceType r) = PyInt year_to_show) data_to_display
      in filter (\<lambda>r. Municipality r \<noteq> ''National average'') data_selected_year)"

section \<open>The closed enumerations and example tables\<close>

text \<open>The three price types that the resolver can name (lines 271-275).\<close>

definition taxonomy :: "string set" where
  "taxonomy = {''Actual price'', ''Estimated price'', ''Predicted price''}"

text \<open>The four labels that \<open>filter_metric\<close> translates (lines 162-169).\<close>

definition known_metrics :: "string list" where
  "known_metrics =
     [''Actual price'', ''Price index'',
      ''Buyable m'' @ sup2 @ '' with annual income'',
      ''Years of income to buy 50 m'' @ sup2]"

text \<open>A row with a price and an affordability value, before the recency column is mapped.\<close>

definition mk_row :: "int \<Rightarrow> string \<Rightarrow> string \<Rightarrow> fval \<Rightarrow> fval \<Rightarrow> row" where
  "mk_row y m p price afford =
     \<lparr>Year = y, Municipality = m, PriceType = p, Recency = 0,
      AvgSalesPrice = price, AvgSalesPriceIdx = NaN,
      M2AffordedTotal = afford, YearsoBuy50M2Total = NaN\<rparr>"

text \<open>
  One year with three municipalities, two of them at the same price, the national
  average, and a row of another year.
\<close>

definition top_n_panel :: "row list" where
  "top_n_panel =
     [mk_row 2020 ''Odense'' ''Actual price'' (Fin 20000) (Fin 5),
      mk_row 2020 ''National average'' ''Actual price'' (Fin 25000) (Fin 4),
      mk_row 2020 ''Copenhagen'' ''Actual price'' (Fin 30000) (Fin 3),
      mk_row 2020 ''Aarhus'' ''Actual price'' (Fin 20000) (Fin 5),
      mk_row 2019 ''Aarhus'' ''Actual price'' (Fin 20000) (Fin 5)]"

text \<open>
  Ten historical years of one municipality (one of them estimated) and one predicted
  year of two municipalities.
\<close>

definition ten_year_panel :: "row list" where
  "ten_year_panel =
     map (\<lambda>y. mk_row y ''Aarhus'' (if y = 2014 then ''Estimated price'' else ''Actual price'')
                 (Fin 20000) (Fin 5)) [2011, 2012, 2013, 2014, 2015, 2016, 2017, 2018, 2019, 2020]
     @ [mk_row 2021 ''Aarhus'' ''Predicted price'' (Fin 21000) (Fin 5),
        mk_row 2021 ''Odense'' ''Predicted price'' (Fin 15000) (Fin 7)]"

text \<open>
  Two municipalities in two years (the first with no affordable area in the base
  year), and the same table without the base-year row of the second municipality.
\<close>

definition complete_panel :: "row list" where
  "complete_panel =
     [mk_row 2000 ''Aarhus'' ''Actual price'' (Fin 100) (Fin 0),
      mk_row 2010 ''Aarhus'' ''Actual price'' (Fin 150) (Fin 2.26),
      mk_row 2000 ''Odense'' ''Estimated price'' (Fin 80) (Fin 4),
      mk_row 2010 ''Odense'' ''Actual price'' (Fin 120) (Fin 3)]"

text \<open>
  Two municipalities in two years whose values are float64 numbers; the price of the
  first goes from 80 to 103, its affordable area from 0 to 2.25.
\<close>

definition pct_panel :: "row list" where
  "pct_panel =
     [mk_row 2000 ''Aarhus'' ''Actual price'' (Fin 80) (Fin 0),
      mk_row 2010 ''Aarhus'' ''Actual price'' (Fin 103) (Fin 2.25),
      mk_row 2000 ''Odense'' ''Estimated price'' (Fin 100) (Fin 4),
      mk_row 2010 ''Odense'' ''Actual price'' (Fin 150) (Fin 3)]"

definition gap_panel :: "row list" where
  "gap_panel =
     [mk_row 2000 ''Aarhus'' ''Actual price'' (Fin 100) (Fin 0),
      mk_row 2010 ''Aarhus'' ''Actual price'' (Fin 150) (Fin 2.26),
      mk_row 2010 ''Odense'' ''Actual price'' (Fin 120) (Fin 3)]"

section \<open>Properties of the recency indexer\<close>

lemma set_unique: "set (unique xs) = set xs"
  by (simp add: unique_def)

lemma distinct_unique: "distinct (unique xs)"
  by (simp add: unique_def)

lemma unique_years_distinct: "distinct (unique_years sd)"
  by (simp add: unique_years_def distinct_unique)

lemma unique_years_desc: "sorted_wrt (\<lambda>a b. b < a) (unique_years sd)"
proof -
  let ?zs = "sort (unique (map Year (filter (\<lambda>r. PriceType r \<noteq> ''Predicted price'') sd)))"
  have "sorted ?zs" and "distinct ?zs" by (simp_all add: distinct_unique)
  then have "sorted_wrt (<) ?zs" by (simp add: strict_sorted_iff)
  then show ?thesis by (simp add: unique_years_def sorted_wrt_rev)
qed

lemma unique_years_set:
  "set (unique_years sd) = Year ` {r \<in> set sd. PriceType r \<noteq> ''Predicted price''}"
  by (auto simp: unique_years_def set_unique)

lemma annual_recency_zip:
  "annual_recency sd = map_of (zip (unique_years sd) [1 ..< length (unique_years sd) + 1])"
proof -
  let ?ps = "zip (unique_years sd) [1 ..< length (unique_years sd) + 1]"
  have "distinct (map fst ?ps)" by (simp add: unique_years_distinct)
  then have "map_of (rev ?ps) = map_of ?ps"
    by (intro map_of_inject_set [THEN iffD2]) (simp_all add: distinct_rev rev_map[symmetric])
  then show ?thesis by (simp add: annual_recency_def n_possible_years_def n_years_def)
qed

lemma annual_recency_nth:
  assumes "i < length (unique_years sd)"
  shows "annual_recency sd (unique_years sd ! i) = Some (Suc i)"
proof -
  let ?ys = "unique_years sd"
  have "map_of (zip ?ys [1 ..< length ?ys + 1]) (?ys ! i) = Some ([1 ..< length ?ys + 1] ! i)"
    using assms by (intro map_of_zip_nth) (simp_all add: unique_years_distinct)
  moreover have "[1 ..< length ?ys + 1] ! i = Suc i"
    using assms by (simp del: upt_Suc)
  ultimately show ?thesis by (simp only: annual_recency_zip)
qed

lemma annual_recency_None:
  "annual_recency sd y = None \<longleftrightarrow> y \<notin> set (unique_years sd)"
  by (simp only: annual_recency_zip) (simp del: upt_Suc add: map_of_zip_is_None)

lemma recency_of_nth:
  "i < length (unique_years sd) \<Longrightarrow> recency_of sd (unique_years sd ! i) = Suc i"
  by (simp add: recency_of_def annual_recency_nth)

lemma recency_of_zero:
  "y \<notin> set (unique_years sd) \<Longrightarrow> recency_of sd y = 0"
  using annual_recency_None [of sd y] by (simp add: recency_of_def)

lemma unique_years_hd_greatest:
  assumes "y \<in> set (unique_years sd)"
  shows "y \<le> unique_years sd ! 0"
proof -
  from assms obtain j where j: "j < length (unique_years sd)" "unique_years sd ! j = y"
    by (auto simp: in_set_conv_nth)
  show ?thesis
  proof (cases "j = 0")
    case True
    with j show ?thesis by simp
  next
    case False
    then have "0 < j" by simp
    with j unique_years_desc [of sd] have "unique_years sd ! j < unique_years sd ! 0"
      by (auto dest: sorted_wrt_nth_less)
    with j show ?thesis by simp
  qed
qed

lemma recency_of_antitone:
  assumes "y1 \<in> set (unique_years sd)" "y2 \<in> set (unique_years sd)" "y1 < y2"
  shows "recency_of sd y2 < recency_of sd y1"
proof -
  let ?ys = "unique_years sd"
  from assms obtain i j where i: "i < length ?ys" "?ys ! i = y1" and j: "j < length ?ys" "?ys ! j = y2"
    by (auto simp: in_set_conv_nth)
  have "j < i"
  proof (rule ccontr)
    assume "\<not> j < i"
    then consider "i = j" | "i < j" by linarith
    then show False
    proof cases
      case 1
      with i j assms(3) show False by simp
    next
      case 2
      with j unique_years_desc [of sd] have "?ys ! j < ?ys ! i"
        by (auto dest: sorted_wrt_nth_less)
      with i j assms(3) show False by simp
    qed
  qed
  moreover have "recency_of sd y1 = Suc i" using i recency_of_nth [of i sd] by simp
  moreover have "recency_of sd y2 = Suc j" using j recency_of_nth [of j sd] by simp
  ultimately show ?thesis by simp
qed

lemma recency_of_most_recent:
  assumes "unique_years sd \<noteq> []"
  shows "recency_of sd (Max (set (unique_years sd))) = 1"
proof -
  let ?ys = "unique_years sd"
  from assms have len: "0 < length ?ys" by simp
  then have "?ys ! 0 \<in> set ?ys" by simp
  then have "Max (set ?ys) = ?ys ! 0"
    by (intro Max_eqI) (simp_all add: unique_years_hd_greatest)
  with len recency_of_nth [of 0 sd] show ?thesis by simp
qed

lemma nth_in_take_distinct:
  assumes "distinct ys" "i < length ys"
  shows "ys ! i \<in> set (take n ys) \<longleftrightarrow> i < n"
proof
  assume "ys ! i \<in> set (take n ys)"
  then obtain j where j: "j < length (take n ys)" "take n ys ! j = ys ! i"
    by (auto simp: in_set_conv_nth)
  then have "ys ! j = ys ! i" "j < length ys" "j < n" by simp_all
  with assms have "j = i" by (simp add: nth_eq_iff_index_eq)
  with \<open>j < n\<close> show "i < n" by simp
next
  assume "i < n"
  with assms(2) have "i < length (take n ys)" by simp
  then have "take n ys ! i \<in> set (take n ys)" by (rule nth_mem)
  with \<open>i < n\<close> show "ys ! i \<in> set (take n ys)" by simp
qed

lemma recency_of_le_iff_take:
  assumes "y \<in> set (unique_years sd)"
  shows "recency_of sd y \<le> n \<longleftrightarrow> y \<in> set (take n (unique_years sd))"
proof -
  from assms obtain i where i: "i < length (unique_years sd)" "unique_years sd ! i = y"
    by (auto simp: in_set_conv_nth)
  have "recency_of sd y = Suc i" using i recency_of_nth [of i sd] by simp
  moreover have "y \<in> set (take n (unique_years sd)) \<longleftrightarrow> i < n"
    using nth_in_take_distinct [OF unique_years_distinct i(1), of n] i(2) by simp
  ultimately show ?thesis by auto
qed

lemma map_recency_Recency:
  "r \<in> set (map_recency sd df) \<Longrightarrow> Recency r = recency_of sd (Year r)"
  by (auto simp: map_recency_def)

section \<open>Recency map (claim C3)\<close>

lemma ten_year_panel_years:
  "unique_years ten_year_panel = [2020, 2019, 2018, 2017, 2016, 2015, 2014, 2013, 2012, 2011]"
  by code_simp

text \<open>
  Claim C3. The recency map is strictly antitone in calendar time: of two historical
  years the earlier one has the larger rank. The most recent historical year has rank 1,
  a dataset with a single historical year gives that year rank 1, and a year that is not
  historical (a year that only predicted rows have) has rank 0. The column \<open>Recency\<close>
  of every row holds the rank of the row's year.
\<close>

theorem recency_map_antitone:
  "(\<forall>y1 \<in> set (unique_years sd). \<forall>y2 \<in> set (unique_years sd).
      y1 < y2 \<longrightarrow> recency_of sd y2 < recency_of sd y1)
   \<and> (unique_years sd \<noteq> [] \<longrightarrow> recency_of sd (Max (set (unique_years sd))) = 1)
   \<and> (\<forall>y. unique_years sd = [y] \<longrightarrow> recency_of sd y = 1)
   \<and> (\<forall>y. y \<notin> set (unique_years sd) \<longrightarrow> recency_of sd y = 0)
   \<and> (\<forall>r \<in> set (map_recency sd sd). Recency r = recency_of sd (Year r))"
proof (intro conjI ballI allI impI)
  fix y1 y2
  assume "y1 \<in> set (unique_years sd)" "y2 \<in> set (unique_years sd)" "y1 < y2"
  then show "recency_of sd y2 < recency_of sd y1" by (rule recency_of_antitone)
next
  assume "unique_years sd \<noteq> []"
  then show "recency_of sd (Max (set (unique_years sd))) = 1" by (rule recency_of_most_recent)
next
  fix y
  assume "unique_years sd = [y]"
  then show "recency_of sd y = 1" using recency_of_nth [of 0 sd] by simp
next
  fix y
  assume "y \<notin> set (unique_years sd)"
  then show "recency_of sd y = 0" by (rule recency_of_zero)
next
  fix r
  assume "r \<in> set (map_recency sd sd)"
  then show "Recency r = recency_of sd (Year r)" by (rule map_recency_Recency)
qed

theorem recency_map_antitone_witness:
  "(2019::int) < 2020 \<and> recency_of ten_year_panel 2020 < recency_of ten_year_panel 2019
   \<and> recency_of ten_year_panel 2020 = 1
   \<and> 2021 \<in> set (future_years ten_year_panel) \<and> recency_of ten_year_panel 2021 = 0
   \<and> unique_years [mk_row 2020 ''Aarhus'' ''Actual price'' (Fin 1) (Fin 1)] = [2020]
   \<and> recency_of [mk_row 2020 ''Aarhus'' ''Actual price'' (Fin 1) (Fin 1)] 2020 = 1"
proof -
  note ys = ten_year_panel_years
  have mx: "Max (set (unique_years ten_year_panel)) = 2020" by (simp add: ys)
  have fut: "2021 \<in> set (future_years ten_year_panel)" by code_simp
  have one: "unique_years [mk_row 2020 ''Aarhus'' ''Actual price'' (Fin 1) (Fin 1)] = [2020]"
    by code_simp
  from recency_map_antitone [of ten_year_panel]
  have "recency_of ten_year_panel 2020 < recency_of ten_year_panel 2019"
    and "recency_of ten_year_panel 2020 = 1"
    and "recency_of ten_year_panel 2021 = 0"
    using mx by (simp_all add: ys)
  moreover from recency_map_antitone [of "[mk_row 2020 ''Aarhus'' ''Actual price'' (Fin 1) (Fin 1)]"] one
  have "recency_of [mk_row 2020 ''Aarhus'' ''Actual price'' (Fin 1) (Fin 1)] 2020 = 1"
    by blast
  ultimately show ?thesis using fut one by simp
qed

section \<open>Price-type resolver (claims C6 and C7)\<close>

lemma three_chain:
  assumes "a \<noteq> b" "a \<noteq> c" "b \<noteq> c"
  shows "{a} \<subset> {a, b}" "{a, b} \<subset> {a, b, c}"
    "{a} \<noteq> {a, b}" "{a, b} \<noteq> {a, b, c}" "{a} \<noteq> {a, b, c}"
    "card {a} = 1" "card {a, b} = 2" "card {a, b, c} = 3"
  using assms by auto

text \<open>
  Claim C6. Whenever the default entry is one of the possible entries, the resolver
  returns the list [Actual] for "excl. estimates", [Actual, Estimated] for
  "incl. estimates" and [Actual, Estimated, Predicted] for "and predictions". As sets
  the three results are non-empty subsets of the three-member taxonomy, pairwise
  distinct, of sizes 1, 2 and 3, and each is a proper subset of the next.
\<close>

theorem price_type_resolver_chain:
  assumes "default_val \<in> set possible_entries"
  shows "\<exists>excl incl pred.
           filter_price_type_new possible_entries default_val ''Historical data excl. estimates'' = Inr excl
         \<and> filter_price_type_new possible_entries default_val ''Historical data incl. estimates'' = Inr incl
         \<and> filter_price_type_new possible_entries default_val ''Historical data and predictions'' = Inr pred
         \<and> set excl = {''Actual price''}
         \<and> set incl = {''Actual price'', ''Estimated price''}
         \<and> set pred = {''Actual price'', ''Estimated price'', ''Predicted price''}
         \<and> set excl \<noteq> {} \<and> set incl \<noteq> {} \<and> set pred \<noteq> {}
         \<and> set excl \<subseteq> taxonomy \<and> set incl \<subseteq> taxonomy \<and> set pred \<subseteq> taxonomy
         \<and> set excl \<noteq> set incl \<and> set incl \<noteq> set pred \<and> set excl \<noteq> set pred
         \<and> set excl \<subset> set incl \<and> set incl \<subset> set pred
         \<and> card (set excl) = 1 \<and> card (set incl) = 2 \<and> card (set pred) = 3"
proof -
  let ?a = "''Actual price''" and ?e = "''Estimated price''" and ?p = "''Predicted price''"
  have ne: "?a \<noteq> ?e" "?a \<noteq> ?p" "?e \<noteq> ?p" by simp_all
  have r1: "filter_price_type_new possible_entries default_val ''Historical data excl. estimates'' = Inr [?a]"
    and r2: "filter_price_type_new possible_entries default_val ''Historical data incl. estimates'' = Inr [?a, ?e]"
    and r3: "filter_price_type_new possible_entries default_val ''Historical data and predictions'' = Inr [?a, ?e, ?p]"
    using assms by (simp_all add: filter_price_type_new_def)
  have s1: "set [?a] = {?a}" and s2: "set [?a, ?e] = {?a, ?e}" and s3: "set [?a, ?e, ?p] = {?a, ?e, ?p}"
    by simp_all
  have sub: "{?a} \<subseteq> taxonomy" "{?a, ?e} \<subseteq> taxonomy" "{?a, ?e, ?p} \<subseteq> taxonomy"
    unfolding taxonomy_def by (rule subset_insertI2 subset_refl insert_mono empty_subsetI)+
  show ?thesis
    unfolding r1 r2 r3
    apply (intro exI conjI)
                      apply (rule refl)+
    unfolding s1 s2 s3
                   apply (rule refl)+
                apply (rule insert_not_empty)+
             apply (rule sub)+
          apply (rule three_chain [OF ne])+
    done
qed
theorem price_type_resolver_chain_witness:
  "''Historical data incl. estimates'' \<in> set price_type_combinations
   \<and> filter_price_type_new price_type_combinations ''Historical data incl. estimates''
        ''Historical data excl. estimates'' = Inr [''Actual price'']
   \<and> filter_price_type_new price_type_combinations ''Historical data incl. estimates''
        ''Historical data incl. estimates'' = Inr [''Actual price'', ''Estimated price'']
   \<and> filter_price_type_new price_type_combinations ''Historical data incl. estimates''
        ''Historical data and predictions'' = Inr [''Actual price'', ''Estimated price'', ''Predicted price'']"
proof -
  have h: "''Historical data incl. estimates'' \<in> set price_type_combinations"
    by (simp add: price_type_combinations_def)
  from price_type_resolver_chain [OF h] h show ?thesis
    by (simp add: filter_price_type_new_def)
qed

text \<open>
  The metric resolver returns a value (\<open>None\<close>) for an unknown label, and the
  price-type resolver fails with \<open>UnboundLocalError\<close> for an unknown combination.
\<close>

theorem invalid_selection_counterexample:
  "filter_metric ''Median price'' = Inr None
   \<and> filter_price_type_new price_type_combinations ''Historical data incl. estimates''
        ''Historical data only'' = Inl UnboundLocalError"
  by (simp add: filter_metric_def filter_price_type_new_def price_type_combinations_def sup2_def)

text \<open>
  Claim C7, as the code has it. No filter raises an error of its own for a value outside
  its enumeration. A combination name that is none of the three leaves the result
  variable of \<open>filter_price_type_new\<close> unbound, which raises \<open>UnboundLocalError\<close>;
  a metric label that is none of the four makes \<open>filter_metric\<close> return \<open>None\<close>
  without failing.
\<close>

theorem invalid_selection_behaviour:
  "(default_val \<in> set possible_entries \<and> c \<notin> set price_type_combinations
      \<longrightarrow> filter_price_type_new possible_entries default_val c = Inl UnboundLocalError)
   \<and> (m \<notin> set known_metrics \<longrightarrow> filter_metric m = Inr None)"
  by (simp add: filter_metric_def filter_price_type_new_def price_type_combinations_def
      known_metrics_def)

theorem invalid_selection_behaviour_witness:
  "''Historical data incl. estimates'' \<in> set price_type_combinations
   \<and> ''Historical data only'' \<notin> set price_type_combinations
   \<and> filter_price_type_new price_type_combinations ''Historical data incl. estimates''
        ''Historical data only'' = Inl UnboundLocalError
   \<and> ''Median price'' \<notin> set known_metrics
   \<and> filter_metric ''Median price'' = Inr None"
proof -
  have h1: "''Historical data incl. estimates'' \<in> set price_type_combinations"
    and h2: "''Historical data only'' \<notin> set price_type_combinations"
    by (simp_all add: price_type_combinations_def)
  have h3: "''Median price'' \<notin> set known_metrics"
    by (simp add: known_metrics_def sup2_def)
  from invalid_selection_behaviour [of "''Historical data incl. estimates''" price_type_combinations
        "''Historical data only''" "''Median price''"] h1 h2 h3
  show ?thesis by blast
qed

section \<open>View filter (claim C1)\<close>

lemma set_page_avg_by_mncp_filter:
  "set (page_avg_by_mncp_filter df n locs pts) =
     {r \<in> set df. Recency r \<le> n \<and> Municipality r \<in> set locs \<and> PriceType r \<in> set pts}"
  by (auto simp: page_avg_by_mncp_filter_def recency_filter_def Let_def)

text \<open>
  Claim C1. On the table with its recency column mapped, and for a row whose
  municipality is one of the selected locations: the recency step keeps the row exactly
  when its rank is at most the threshold, which for a row of a historical year is the
  case exactly when the year is among the \<open>n\<close> most recent historical years. A row of
  a year outside the historical set has rank 0, passes the recency step for every
  threshold, and is in the final view exactly when its price type is one of the allowed
  ones. A row of a historical year is in the final view exactly when its year is among
  the \<open>n\<close> most recent historical years and its price type is allowed.
\<close>

theorem view_filter_membership:
  assumes "Municipality r \<in> set selected_locations"
  shows "(r \<in> set (recency_filter (map_recency sd sd) n)
      \<longleftrightarrow> r \<in> set (map_recency sd sd) \<and> Recency r \<le> n)
   \<and> (r \<in> set (map_recency sd sd) \<and> Year r \<in> set (unique_years sd)
        \<longrightarrow> (r \<in> set (recency_filter (map_recency sd sd) n)
               \<longleftrightarrow> Year r \<in> set (take n (unique_years sd))))
   \<and> (r \<in> set (map_recency sd sd) \<and> Year r \<notin> set (unique_years sd)
        \<longrightarrow> Recency r = 0
            \<and> (\<forall>k. r \<in> set (recency_filter (map_recency sd sd) k))
            \<and> (r \<in> set (page_avg_by_mncp_filter (map_recency sd sd) n selected_locations price_types)
                 \<longleftrightarrow> PriceType r \<in> set price_types))
   \<and> (r \<in> set (map_recency sd sd) \<and> Year r \<in> set (unique_years sd)
        \<longrightarrow> (r \<in> set (page_avg_by_mncp_filter (map_recency sd sd) n selected_locations price_types)
               \<longleftrightarrow> Year r \<in> set (take n (unique_years sd)) \<and> PriceType r \<in> set price_types))"
proof -
  let ?df = "map_recency sd sd"
  let ?view = "page_avg_by_mncp_filter ?df n selected_locations price_types"
  have step: "r \<in> set (recency_filter ?df k) \<longleftrightarrow> r \<in> set ?df \<and> Recency r \<le> k" for k
    by (simp add: recency_filter_def)
  have view: "r \<in> set ?view \<longleftrightarrow> r \<in> set (recency_filter ?df n) \<and> PriceType r \<in> set price_types"
    using assms by (simp add: set_page_avg_by_mncp_filter step)
  have hist: "r \<in> set (recency_filter ?df n) \<longleftrightarrow> Year r \<in> set (take n (unique_years sd))"
    if a: "r \<in> set ?df \<and> Year r \<in> set (unique_years sd)"
  proof -
    from a have "Recency r = recency_of sd (Year r)"
      using map_recency_Recency [of r sd sd] by simp
    with a recency_of_le_iff_take [of "Year r" sd n] show ?thesis
      by (simp add: step)
  qed
  have fut: "Recency r = 0 \<and> (\<forall>k. r \<in> set (recency_filter ?df k))"
    if a: "r \<in> set ?df \<and> Year r \<notin> set (unique_years sd)"
  proof -
    from a have "Recency r = recency_of sd (Year r)"
      using map_recency_Recency [of r sd sd] by simp
    with a have "Recency r = 0" by (simp add: recency_of_zero)
    with a show ?thesis by (simp add: step)
  qed
  from step [of n] hist fut view show ?thesis by blast
qed

theorem view_filter_membership_witness:
  "Municipality (mk_row 2021 ''Odense'' ''Predicted price'' (Fin 15000) (Fin 7))
       \<in> set [''Aarhus'', ''Odense'']
   \<and> mk_row 2021 ''Odense'' ''Predicted price'' (Fin 15000) (Fin 7)
       \<in> set (map_recency ten_year_panel ten_year_panel)
   \<and> Year (mk_row 2021 ''Odense'' ''Predicted price'' (Fin 15000) (Fin 7))
       \<notin> set (unique_years ten_year_panel)
   \<and> mk_row 2021 ''Odense'' ''Predicted price'' (Fin 15000) (Fin 7)
       \<in> set (recency_filter (map_recency ten_year_panel ten_year_panel) 3)
   \<and> mk_row 2021 ''Odense'' ''Predicted price'' (Fin 15000) (Fin 7)
       \<in> set (page_avg_by_mncp_filter (map_recency ten_year_panel ten_year_panel) 3
                 [''Aarhus'', ''Odense''] [''Actual price'', ''Estimated price'', ''Predicted price''])
   \<and> mk_row 2021 ''Odense'' ''Predicted price'' (Fin 15000) (Fin 7)
       \<notin> set (page_avg_by_mncp_filter (map_recency ten_year_panel ten_year_panel) 3
                 [''Aarhus'', ''Odense''] [''Actual price'', ''Estimated price''])
   \<and> (mk_row 2018 ''Aarhus'' ''Actual price'' (Fin 20000) (Fin 5))\<lparr>Recency := 3\<rparr>
       \<in> set (map_recency ten_year_panel ten_year_panel)
   \<and> 2018 \<in> set (take 3 (unique_years ten_year_panel))
   \<and> (mk_row 2018 ''Aarhus'' ''Actual price'' (Fin 20000) (Fin 5))\<lparr>Recency := 3\<rparr>
       \<in> set (page_avg_by_mncp_filter (map_recency ten_year_panel ten_year_panel) 3
                 [''Aarhus'', ''Odense''] [''Actual price'', ''Estimated price''])
   \<and> (mk_row 2017 ''Aarhus'' ''Actual price'' (Fin 20000) (Fin 5))\<lparr>Recency := 4\<rparr>
       \<in> set (map_recency ten_year_panel ten_year_panel)
   \<and> 2017 \<in> set (unique_years ten_year_panel)
   \<and> 2017 \<notin> set (take 3 (unique_years ten_year_panel))
   \<and> (mk_row 2017 ''Aarhus'' ''Actual price'' (Fin 20000) (Fin 5))\<lparr>Recency := 4\<rparr>
       \<notin> set (recency_filter (map_recency ten_year_panel ten_year_panel) 3)
   \<and> (mk_row 2017 ''Aarhus'' ''Actual price'' (Fin 20000) (Fin 5))\<lparr>Recency := 4\<rparr>
       \<notin> set (page_avg_by_mncp_filter (map_recency ten_year_panel ten_year_panel) 3
                 [''Aarhus'', ''Odense''] [''Actual price'', ''Estimated price''])"
proof -
  let ?df = "map_recency ten_year_panel ten_year_panel"
  let ?f = "mk_row 2021 ''Odense'' ''Predicted price'' (Fin 15000) (Fin 7)"
  let ?h = "(mk_row 2018 ''Aarhus'' ''Actual price'' (Fin 20000) (Fin 5))\<lparr>Recency := 3\<rparr>"
  let ?o = "(mk_row 2017 ''Aarhus'' ''Actual price'' (Fin 20000) (Fin 5))\<lparr>Recency := 4\<rparr>"
  let ?locs = "[''Aarhus'', ''Odense'']"
  let ?all = "[''Actual price'', ''Estimated price'', ''Predicted price'']"
  let ?hist = "[''Actual price'', ''Estimated price'']"
  have f0: "Municipality ?f \<in> set ?locs" by (simp add: mk_row_def)
  have f1: "?f \<in> set ?df" by code_simp
  have f2: "Year ?f \<notin> set (unique_years ten_year_panel)" by code_simp
  have f3: "PriceType ?f \<in> set ?all" "PriceType ?f \<notin> set ?hist"
    by (simp_all add: mk_row_def)
  have h0: "Municipality ?h \<in> set ?locs" by (simp add: mk_row_def)
  have h1: "?h \<in> set ?df" by code_simp
  have h2: "Year ?h \<in> set (take 3 (unique_years ten_year_panel))" by code_simp
  have h3: "Year ?h \<in> set (unique_years ten_year_panel)" by code_simp
  have h4: "Year ?h = 2018" "PriceType ?h \<in> set ?hist" by (simp_all add: mk_row_def)
  have o0: "Municipality ?o \<in> set ?locs" by (simp add: mk_row_def)
  have o1: "?o \<in> set ?df" by code_simp
  have o2: "Year ?o \<in> set (unique_years ten_year_panel)" by code_simp
  have o3: "Year ?o \<notin> set (take 3 (unique_years ten_year_panel))" by code_simp
  have o4: "Year ?o = 2017" by (simp add: mk_row_def)
  from view_filter_membership [OF f0, of ten_year_panel 3 ?all] f1 f2 f3(1)
  have "?f \<in> set (recency_filter ?df 3)"
    and "?f \<in> set (page_avg_by_mncp_filter ?df 3 ?locs ?all)"
    by blast+
  moreover from view_filter_membership [OF f0, of ten_year_panel 3 ?hist] f1 f2 f3(2)
  have "?f \<notin> set (page_avg_by_mncp_filter ?df 3 ?locs ?hist)" by blast
  moreover from view_filter_membership [OF h0, of ten_year_panel 3 ?hist] h1 h2 h3 h4(2)
  have "?h \<in> set (page_avg_by_mncp_filter ?df 3 ?locs ?hist)" by blast
  moreover from view_filter_membership [OF o0, of ten_year_panel 3 ?hist] o1 o2 o3
  have "?o \<notin> set (recency_filter ?df 3)"
    and "?o \<notin> set (page_avg_by_mncp_filter ?df 3 ?locs ?hist)"
    by blast+
  ultimately show ?thesis using f0 f1 f2 h1 h2 h4(1) o1 o2 o3 o4 by simp
qed

section \<open>Top-N ranking (claim C8)\<close>

lemma insort_key_map:
  "insort_key k (g x) (map g ys) = map g (insort_key (\<lambda>i. k (g i)) x ys)"
  by (induction ys) simp_all

lemma sort_key_map:
  "sort_key k (map g xs) = map g (sort_key (\<lambda>i. k (g i)) xs)"
  by (induction xs) (simp_all add: sort_key_simps insort_key_map)

lemma insort_key_cong_set:
  assumes "k x = k' x" "\<And>y. y \<in> set ys \<Longrightarrow> k y = k' y"
  shows "insort_key k x ys = insort_key k' x ys"
  using assms by (induction ys) simp_all

lemma sort_key_cong_set:
  assumes "\<And>x. x \<in> set xs \<Longrightarrow> k x = k' x"
  shows "sort_key k xs = sort_key k' xs"
  using assms
proof (induction xs)
  case Nil
  then show ?case by simp
next
  case (Cons x xs)
  have "sort_key k xs = sort_key k' xs" using Cons by simp
  moreover have "insort_key k x (sort_key k' xs) = insort_key k' x (sort_key k' xs)"
    using Cons.prems by (intro insort_key_cong_set) simp_all
  ultimately show ?case by (simp add: sort_key_simps)
qed

lemma take_stable_argsort:
  "map (\<lambda>i. xs ! i) (stable_argsort (map f xs)) = sort_key (\<lambda>r. sort_rank (f r)) xs"
proof -
  have "sort_key (\<lambda>r. sort_rank (f r)) xs
      = sort_key (\<lambda>r. sort_rank (f r)) (map (\<lambda>i. xs ! i) [0..<length xs])"
    by (simp add: map_nth)
  also have "\<dots> = map (\<lambda>i. xs ! i) (sort_key (\<lambda>i. sort_rank (f (xs ! i))) [0..<length xs])"
    by (rule sort_key_map)
  also have "sort_key (\<lambda>i. sort_rank (f (xs ! i))) [0..<length xs]
      = sort_key (\<lambda>i. sort_rank (map f xs ! i)) [0..<length xs]"
    by (rule sort_key_cong_set) simp
  finally show ?thesis by (simp add: stable_argsort_def)
qed

lemma sort_values_stable:
  "sort_values stable_argsort f ascending df =
     (if ascending then sort_key (\<lambda>r. sort_rank (f r)) (filter (\<lambda>r. f r \<noteq> NaN) df)
      else rev (sort_key (\<lambda>r. sort_rank (f r)) (rev (filter (\<lambda>r. f r \<noteq> NaN) df))))
     @ filter (\<lambda>r. f r = NaN) df"
  by (simp add: sort_values_def Let_def take_stable_argsort)

lemma sort_values_short:
  assumes "\<And>keys. length keys \<le> b \<Longrightarrow> argsort keys = stable_argsort keys"
    and "length df \<le> b"
  shows "sort_values argsort f ascending df = sort_values stable_argsort f ascending df"
proof -
  have "length (filter (\<lambda>r. f r \<noteq> NaN) df) \<le> b"
    using assms(2) length_filter_le [of "\<lambda>r. f r \<noteq> NaN" df] by linarith
  then have "argsort (map f (filter (\<lambda>r. f r \<noteq> NaN) df)) = stable_argsort (map f (filter (\<lambda>r. f r \<noteq> NaN) df))"
    and "argsort (map f (rev (filter (\<lambda>r. f r \<noteq> NaN) df))) = stable_argsort (map f (rev (filter (\<lambda>r. f r \<noteq> NaN) df)))"
    using assms(1) by simp_all
  then show ?thesis by (simp add: sort_values_def Let_def)
qed

lemma length_sort_values_stable:
  "length (sort_values stable_argsort f ascending df) = length df"
  using sum_length_filter_compl [of "\<lambda>r. f r = NaN" df]
  by (simp add: sort_values_stable)

lemma filter_sort_key_tied:
  assumes "\<And>r. Q r \<Longrightarrow> k r = c"
  shows "filter Q (sort_key k xs) = filter Q xs"
proof -
  have "filter Q ys = filter Q (filter (\<lambda>r. k r = c) ys)" for ys
    using assms by (auto intro: filter_cong)
  then have "filter Q (sort_key k xs) = filter Q (filter (\<lambda>r. k r = c) (sort_key k xs))"
    by blast
  also have "\<dots> = filter Q (filter (\<lambda>r. k r = c) xs)"
    by (simp only: sort_key_stable)
  also have "\<dots> = filter Q xs"
    using assms by (auto intro: filter_cong)
  finally show ?thesis .
qed

lemma sort_values_tied:
  assumes "\<And>r. Q r \<Longrightarrow> f r = b"
  shows "filter Q (sort_values stable_argsort f ascending xs) = filter Q xs"
proof -
  let ?k = "\<lambda>r. sort_rank (f r)"
  let ?nn = "filter (\<lambda>r. f r \<noteq> NaN) xs" and ?na = "filter (\<lambda>r. f r = NaN) xs"
  have tied: "\<And>r. Q r \<Longrightarrow> ?k r = sort_rank b" using assms by simp
  have asc: "filter Q (sort_key ?k ?nn) = filter Q ?nn"
    using tied by (rule filter_sort_key_tied)
  have "filter Q (sort_key ?k (rev ?nn)) = filter Q (rev ?nn)"
    using tied by (rule filter_sort_key_tied)
  then have desc: "filter Q (rev (sort_key ?k (rev ?nn))) = filter Q ?nn"
    by (simp add: rev_filter [symmetric])
  have split: "filter Q ?nn @ filter Q ?na = filter Q xs"
  proof (cases "b = NaN")
    case True
    then have "filter Q ?nn = []" "filter Q ?na = filter Q xs"
      using assms by (auto intro: filter_cong simp: filter_empty_conv)
    then show ?thesis by simp
  next
    case False
    then have "filter Q ?na = []" "filter Q ?nn = filter Q xs"
      using assms by (auto intro: filter_cong simp: filter_empty_conv)
    then show ?thesis by simp
  qed
  show ?thesis
    using asc desc split by (simp add: sort_values_stable)
qed

lemma sorted_three_parts:
  assumes "sorted (map k ys)"
  shows "ys = filter (\<lambda>r. k r < c) ys @ filter (\<lambda>r. k r = c) ys @ filter (\<lambda>r. c < k r) ys"
  using assms
proof (induction ys)
  case Nil
  then show ?case by simp
next
  case (Cons y ys)
  then have le: "\<And>z. z \<in> set ys \<Longrightarrow> k y \<le> k z" and srt: "sorted (map k ys)" by auto
  have IH: "ys = filter (\<lambda>r. k r < c) ys @ filter (\<lambda>r. k r = c) ys @ filter (\<lambda>r. c < k r) ys"
    using Cons.IH srt .
  consider "k y < c" | "k y = c" | "c < k y" by fastforce
  then show ?case
  proof cases
    case 1
    then have "k y \<noteq> c" "\<not> c < k y" by auto
    with 1 have "filter (\<lambda>r. k r < c) (y # ys) = y # filter (\<lambda>r. k r < c) ys"
      "filter (\<lambda>r. k r = c) (y # ys) = filter (\<lambda>r. k r = c) ys"
      "filter (\<lambda>r. c < k r) (y # ys) = filter (\<lambda>r. c < k r) ys" by simp_all
    then show ?thesis using IH by (metis append_Cons)
  next
    case 2
    then have "filter (\<lambda>r. k r < c) ys = []"
      using le by (fastforce simp: filter_empty_conv not_less)
    moreover from 2 have "filter (\<lambda>r. k r < c) (y # ys) = filter (\<lambda>r. k r < c) ys"
      "filter (\<lambda>r. k r = c) (y # ys) = y # filter (\<lambda>r. k r = c) ys"
      "filter (\<lambda>r. c < k r) (y # ys) = filter (\<lambda>r. c < k r) ys" by simp_all
    ultimately show ?thesis using IH by (metis append_Cons append_Nil)
  next
    case 3
    then have "filter (\<lambda>r. k r < c) ys = []" "filter (\<lambda>r. k r = c) ys = []"
      using le by (fastforce simp: filter_empty_conv not_less)+
    moreover from 3 have "k y \<noteq> c" "\<not> k y < c" by auto
    with 3 have "filter (\<lambda>r. k r < c) (y # ys) = filter (\<lambda>r. k r < c) ys"
      "filter (\<lambda>r. k r = c) (y # ys) = filter (\<lambda>r. k r = c) ys"
      "filter (\<lambda>r. c < k r) (y # ys) = y # filter (\<lambda>r. c < k r) ys" by simp_all
    ultimately show ?thesis using IH by (metis append_Cons append_Nil)
  qed
qed

lemma filter_take_three_parts:
  assumes "\<And>x. x \<in> set F \<Longrightarrow> \<not> P x" "\<And>x. x \<in> set E \<Longrightarrow> P x" "\<And>x. x \<in> set L \<Longrightarrow> \<not> P x"
  shows "filter P (take n (F @ E @ L)) = take (n - length F) E"
proof -
  have "filter P (take n F) = []"
    using assms(1) by (auto simp: filter_empty_conv dest: in_set_takeD)
  moreover have "filter P (take (n - length F) E) = take (n - length F) E"
    using assms(2) by (auto simp: filter_id_conv dest: in_set_takeD)
  moreover have "filter P (take (n - length F - length E) L) = []"
    using assms(3) by (auto simp: filter_empty_conv dest: in_set_takeD)
  ultimately show ?thesis by simp
qed

lemma length_filter_insort_key:
  "length (filter P (insort_key k x xs)) = length (filter P (x # xs))"
  by (induction xs) simp_all

lemma length_filter_sort_key:
  "length (filter P (sort_key k xs)) = length (filter P xs)"
  by (induction xs) (simp_all add: sort_key_simps length_filter_insort_key)

lemma sort_rank_inj: "sort_rank u = sort_rank v \<longleftrightarrow> u = v"
  by (cases u; cases v) (simp_all add: sort_rank_def)

lemma sort_rank_NaN: "v \<noteq> NaN \<Longrightarrow> sort_rank v < sort_rank NaN"
  by (cases v) (simp_all add: sort_rank_def)


lemma sort_values_desc_cut:
  "filter (\<lambda>r. p r = a) (take n (sort_values stable_argsort p False xs))
     = take (n - length (filter (\<lambda>r. p r \<noteq> NaN \<and> (a = NaN \<or> sort_rank a < sort_rank (p r))) xs))
         (filter (\<lambda>r. p r = a) xs)"
proof -
  let ?k = "\<lambda>r. sort_rank (p r)"
  let ?nn = "filter (\<lambda>r. p r \<noteq> NaN) xs" and ?na = "filter (\<lambda>r. p r = NaN) xs"
  let ?S = "sort_key ?k (rev ?nn)"
  let ?D = "rev ?S"
  have zs: "sort_values stable_argsort p False xs = ?D @ ?na"
    by (simp add: sort_values_stable)
  have setD: "\<And>x. x \<in> set ?D \<Longrightarrow> p x \<noteq> NaN" by simp
  show ?thesis
  proof (cases "a = NaN")
    case True
    have A: "filter (\<lambda>r. p r = a) (take n (?D @ ?na @ [])) = take (n - length ?D) ?na"
      using True setD by (intro filter_take_three_parts) simp_all
    have C: "length ?D = length (filter (\<lambda>r. p r \<noteq> NaN \<and> (a = NaN \<or> sort_rank a < sort_rank (p r))) xs)"
      using True by simp
    have E: "?na = filter (\<lambda>r. p r = a) xs" using True by simp
    have "filter (\<lambda>r. p r = a) (take n (sort_values stable_argsort p False xs))
        = filter (\<lambda>r. p r = a) (take n (?D @ ?na @ []))"
      by (simp only: zs append_Nil2)
    also have "\<dots> = take (n - length ?D) ?na" by (rule A)
    also have "\<dots> = take (n - length (filter (\<lambda>r. p r \<noteq> NaN \<and> (a = NaN \<or> sort_rank a < sort_rank (p r))) xs)) ?na"
      by (simp only: C)
    also have "\<dots> = take (n - length (filter (\<lambda>r. p r \<noteq> NaN \<and> (a = NaN \<or> sort_rank a < sort_rank (p r))) xs))
                        (filter (\<lambda>r. p r = a) xs)"
      using E by (rule arg_cong)
    finally show ?thesis .
  next
    case False
    let ?c = "sort_rank a"
    let ?F = "filter (\<lambda>r. ?c < ?k r) ?D" and ?E = "filter (\<lambda>r. ?k r = ?c) ?D"
      and ?L = "filter (\<lambda>r. ?k r < ?c) ?D"
    have "sorted (map ?k ?S)" by simp
    then have "?S = filter (\<lambda>r. ?k r < ?c) ?S @ filter (\<lambda>r. ?k r = ?c) ?S @ filter (\<lambda>r. ?c < ?k r) ?S"
      by (rule sorted_three_parts)
    then have "rev ?S = rev (filter (\<lambda>r. ?k r < ?c) ?S @ filter (\<lambda>r. ?k r = ?c) ?S @ filter (\<lambda>r. ?c < ?k r) ?S)"
      by (rule arg_cong)
    then have D: "?D = ?F @ ?E @ ?L"
      by (simp only: rev_append rev_filter append_assoc)
    have A: "filter (\<lambda>r. p r = a) (take n (?F @ ?E @ (?L @ ?na))) = take (n - length ?F) ?E"
    proof (rule filter_take_three_parts)
      fix x assume "x \<in> set ?F"
      then show "\<not> p x = a" by auto
    next
      fix x assume "x \<in> set ?E"
      then show "p x = a" by (simp add: sort_rank_inj)
    next
      fix x assume "x \<in> set (?L @ ?na)"
      then show "\<not> p x = a" using False by auto
    qed
    have B: "?D @ ?na = ?F @ ?E @ (?L @ ?na)"
      using D by (metis append_assoc)
    have C: "length ?F = length (filter (\<lambda>r. p r \<noteq> NaN \<and> (a = NaN \<or> sort_rank a < sort_rank (p r))) xs)"
    proof -
      have "length ?F = length (filter (\<lambda>r. ?c < ?k r) ?S)"
        by (simp only: rev_filter [symmetric] length_rev)
      also have "\<dots> = length (filter (\<lambda>r. ?c < ?k r) (rev ?nn))"
        by (rule length_filter_sort_key)
      also have "\<dots> = length (filter (\<lambda>r. ?c < ?k r) ?nn)"
        by (simp only: rev_filter [symmetric] length_rev)
      also have "filter (\<lambda>r. ?c < ?k r) ?nn
          = filter (\<lambda>r. p r \<noteq> NaN \<and> (a = NaN \<or> sort_rank a < sort_rank (p r))) xs"
        using False by (simp add: conj_commute)
      finally show ?thesis .
    qed
    have E: "?E = filter (\<lambda>r. p r = a) xs"
    proof -
      have "?E = rev (filter (\<lambda>r. ?k r = ?c) ?S)"
        by (simp only: rev_filter)
      also have "filter (\<lambda>r. ?k r = ?c) ?S = filter (\<lambda>r. ?k r = ?c) (rev ?nn)"
        by (simp only: sort_key_stable)
      also have "rev (filter (\<lambda>r. ?k r = ?c) (rev ?nn)) = filter (\<lambda>r. ?k r = ?c) ?nn"
        by (simp only: rev_filter rev_rev_ident)
      also have "\<dots> = filter (\<lambda>r. p r = a) xs"
        using False by (auto simp: sort_rank_inj intro: filter_cong)
      finally show ?thesis .
    qed
    have "filter (\<lambda>r. p r = a) (take n (sort_values stable_argsort p False xs))
        = filter (\<lambda>r. p r = a) (take n (?D @ ?na))"
      by (simp only: zs)
    also have "\<dots> = filter (\<lambda>r. p r = a) (take n (?F @ ?E @ (?L @ ?na)))"
      using B by (rule arg_cong)
    also have "\<dots> = take (n - length ?F) ?E" by (rule A)
    also have "\<dots> = take (n - length (filter (\<lambda>r. p r \<noteq> NaN \<and> (a = NaN \<or> sort_rank a < sort_rank (p r))) xs)) ?E"
      using C by (rule arg_cong)
    also have "\<dots> = take (n - length (filter (\<lambda>r. p r \<noteq> NaN \<and> (a = NaN \<or> sort_rank a < sort_rank (p r))) xs))
                        (filter (\<lambda>r. p r = a) xs)"
      using E by (rule arg_cong)
    finally show ?thesis .
  qed
qed

lemma sort_values_rename:
  assumes range: "\<And>keys. set (argsort keys) \<subseteq> {..<length keys}"
    and key: "\<And>r. f (h r) = f r"
  shows "sort_values argsort f ascending (map h df) = map h (sort_values argsort f ascending df)"
proof -
  have pick: "map (\<lambda>i. map h xs ! i) (argsort (map f (map h xs)))
                = map h (map (\<lambda>i. xs ! i) (argsort (map f xs)))" for xs
  proof -
    have same: "map f (map h xs) = map f xs" using key by simp
    have "i < length xs" if "i \<in> set (argsort (map f xs))" for i
      using range [of "map f xs"] that by auto
    then show ?thesis unfolding same by simp
  qed
  have nn: "filter (\<lambda>r. f r \<noteq> NaN) (map h df) = map h (filter (\<lambda>r. f r \<noteq> NaN) df)"
    and na: "filter (\<lambda>r. f r = NaN) (map h df) = map h (filter (\<lambda>r. f r = NaN) df)"
    using key by (simp_all add: filter_map comp_def)
  show ?thesis
  proof (cases ascending)
    case True
    then show ?thesis
      unfolding sort_values_def Let_def nn na
      using pick [of "filter (\<lambda>r. f r \<noteq> NaN) df"] by simp
  next
    case False
    have r: "rev (map h (filter (\<lambda>r. f r \<noteq> NaN) df)) = map h (rev (filter (\<lambda>r. f r \<noteq> NaN) df))"
      by (rule rev_map)
    from False show ?thesis
      unfolding sort_values_def Let_def nn na r
      using pick [of "rev (filter (\<lambda>r. f r \<noteq> NaN) df)"] by (simp add: rev_map)
  qed
qed

lemma column_rename:
  assumes "column metric_for_use = Some f"
  shows "f (r\<lparr>Municipality := m\<rparr>) = f r"
  using assms by (auto simp: column_def split: if_splits)

text \<open>
  The library sort sees the keys alone. For every \<open>argsort\<close> that returns positions
  of its array, and a table of any length: giving the municipalities other names (the
  national average keeping its own) gives the rows of the ranking these names and
  leaves their order as it is.
\<close>

lemma top_n_most_expensive_rename:
  assumes range: "\<And>keys. set (argsort keys) \<subseteq> {..<length keys}"
    and h: "\<And>r. h r = r\<lparr>Municipality := g (Municipality r)\<rparr>"
    and g: "\<And>m. g m = ''National average'' \<longleftrightarrow> m = ''National average''"
  shows "top_n_most_expensive argsort (map h data_to_display) year_to_show n metric_for_use
           = map_sum id (map h) (top_n_most_expensive argsort data_to_display year_to_show n metric_for_use)"
proof (cases "column metric_for_use")
  case None
  then show ?thesis by (simp add: top_n_most_expensive_def Let_def)
next
  case (Some f)
  let ?pool = "filter (\<lambda>r. Municipality r \<noteq> ''National average'')
                 (filter (\<lambda>r. Year r = year_to_show) data_to_display)"
  have pool: "filter (\<lambda>r. Municipality r \<noteq> ''National average'')
                 (filter (\<lambda>r. Year r = year_to_show) (map h data_to_display)) = map h ?pool"
    using g by (simp add: filter_map comp_def h)
  have price: "\<And>r. AvgSalesPrice (h r) = AvgSalesPrice r" by (simp add: h)
  have metric: "\<And>r. f (h r) = f r" using Some by (simp add: h column_rename)
  have s1: "sort_values argsort AvgSalesPrice False (map h ?pool)
              = map h (sort_values argsort AvgSalesPrice False ?pool)"
    using range price by (rule sort_values_rename)
  have s2: "sort_values argsort f True (map h xs) = map h (sort_values argsort f True xs)" for xs
    using range metric by (rule sort_values_rename)
  show ?thesis
    unfolding top_n_most_expensive_def Let_def pool s1 take_map Some by (simp add: s2)
qed

text \<open>
  Two municipalities with the same price, sorted as numpy sorts two elements: they come
  out in the order of their rows in the input, Odense before Aarhus for one row order,
  Aarhus before Odense for the other.
\<close>

theorem top_n_tie_break_counterexample:
  "map_sum id (map Municipality)
     (page_annual_price_overview_top stable_argsort
        [mk_row 2020 ''Odense'' ''Actual price'' (Fin 20000) (Fin 5),
         mk_row 2020 ''Aarhus'' ''Actual price'' (Fin 20000) (Fin 5)]
        [''Actual price'', ''Estimated price''] 2020 10 ''AvgSalesPrice'')
     = Inr [''Odense'', ''Aarhus'']
   \<and> map_sum id (map Municipality)
     (page_annual_price_overview_top stable_argsort
        [mk_row 2020 ''Aarhus'' ''Actual price'' (Fin 20000) (Fin 5),
         mk_row 2020 ''Odense'' ''Actual price'' (Fin 20000) (Fin 5)]
        [''Actual price'', ''Estimated price''] 2020 10 ''AvgSalesPrice'')
     = Inr [''Aarhus'', ''Odense'']
   \<and> ''Aarhus'' < ''Odense''"
  by code_simp

text \<open>
  Claim C8, as the code has it. The ranking has no tie-break by name. Let the library
  sort keep equal keys in their order on arrays of at most \<open>b\<close> elements (numpy's
  quicksort does for \<open>b = 16\<close>), and let the year have at most \<open>b\<close> municipalities
  (\<open>pool\<close>: the rows of the year without the national average, in the order of the
  input table). Then the ranking has \<open>min n (length pool)\<close> rows, and its rows with
  price \<open>a\<close> and displayed metric \<open>v\<close> are, in the order of the input table, those
  with metric \<open>v\<close> among the first \<open>n - h\<close> rows of the pool with price \<open>a\<close>,
  where \<open>h\<close> is the number of rows of the pool that a descending sort puts before the
  price \<open>a\<close> (a higher price; any price, when \<open>a\<close> is \<open>NaN\<close>). So tied rows stand
  in input order, the cut drops only the last of them, and when \<open>n\<close> is at least the
  size of the pool all of them are there. Nothing is said of a year with more rows than
  the library sorts by insertion.
\<close>

theorem top_n_ties_in_input_order:
  assumes short: "\<And>keys. length keys \<le> b \<Longrightarrow> argsort keys = stable_argsort keys"
    and col: "column metric_for_use = Some f"
    and pool: "pool = filter (\<lambda>r. Municipality r \<noteq> ''National average'')
                        (filter (\<lambda>r. Year r = year_to_show) data_to_display)"
    and len: "length pool \<le> b"
  shows "\<exists>res. top_n_most_expensive argsort data_to_display year_to_show n metric_for_use = Inr res
           \<and> length res = min n (length pool)
           \<and> filter (\<lambda>r. AvgSalesPrice r = a \<and> f r = v) res
               = filter (\<lambda>r. f r = v)
                   (take (n - length (filter (\<lambda>r. AvgSalesPrice r \<noteq> NaN
                                  \<and> (a = NaN \<or> sort_rank a < sort_rank (AvgSalesPrice r))) pool))
                      (filter (\<lambda>r. AvgSalesPrice r = a) pool))
           \<and> prefix (filter (\<lambda>r. AvgSalesPrice r = a \<and> f r = v) res)
                (filter (\<lambda>r. AvgSalesPrice r = a \<and> f r = v) pool)
           \<and> (length pool \<le> n \<longrightarrow>
                filter (\<lambda>r. AvgSalesPrice r = a \<and> f r = v) res
                  = filter (\<lambda>r. AvgSalesPrice r = a \<and> f r = v) pool)"
proof -
  let ?Q = "\<lambda>r. AvgSalesPrice r = a \<and> f r = v"
  let ?zs = "sort_values stable_argsort AvgSalesPrice False pool"
  let ?cut = "take n ?zs"
  let ?res = "sort_values stable_argsort f True ?cut"
  let ?m = "n - length (filter (\<lambda>r. AvgSalesPrice r \<noteq> NaN
                \<and> (a = NaN \<or> sort_rank a < sort_rank (AvgSalesPrice r))) pool)"
  have s1: "sort_values argsort AvgSalesPrice False pool = ?zs"
    using short len by (rule sort_values_short)
  have lz: "length ?zs = length pool" by (rule length_sort_values_stable)
  then have "length ?cut \<le> b" using len by simp
  with short have s2: "sort_values argsort f True ?cut = ?res"
    by (rule sort_values_short)
  have res: "top_n_most_expensive argsort data_to_display year_to_show n metric_for_use = Inr ?res"
    unfolding top_n_most_expensive_def Let_def pool [symmetric] s1 col using s2 by simp
  have lr: "length ?res = min n (length pool)"
    using lz by (simp add: length_sort_values_stable min.commute)
  have "filter ?Q ?res = filter ?Q ?cut"
    by (rule sort_values_tied) simp
  also have "\<dots> = filter (\<lambda>r. f r = v) (filter (\<lambda>r. AvgSalesPrice r = a) ?cut)"
    by (simp add: conj_commute)
  also have "filter (\<lambda>r. AvgSalesPrice r = a) ?cut = take ?m (filter (\<lambda>r. AvgSalesPrice r = a) pool)"
    by (rule sort_values_desc_cut)
  finally have exact: "filter ?Q ?res
      = filter (\<lambda>r. f r = v) (take ?m (filter (\<lambda>r. AvgSalesPrice r = a) pool))" .
  have "prefix (filter (\<lambda>r. f r = v) (take ?m (filter (\<lambda>r. AvgSalesPrice r = a) pool)))
          (filter (\<lambda>r. f r = v) (filter (\<lambda>r. AvgSalesPrice r = a) pool))"
    by (rule filter_mono_prefix) (rule take_is_prefix)
  then have pre: "prefix (filter ?Q ?res) (filter ?Q pool)"
    using exact by (simp add: conj_commute)
  have all: "filter ?Q ?res = filter ?Q pool" if "length pool \<le> n"
  proof -
    from that lz have "?cut = ?zs" by simp
    then have "filter ?Q ?res = filter ?Q (sort_values stable_argsort f True ?zs)" by simp
    also have "\<dots> = filter ?Q ?zs" by (rule sort_values_tied) simp
    also have "\<dots> = filter ?Q pool" by (rule sort_values_tied) simp
    finally show ?thesis .
  qed
  from res lr exact pre all show ?thesis by blast
qed

theorem top_n_ties_in_input_order_witness:
  "(\<exists>res. top_n_most_expensive stable_argsort top_n_panel 2020 10 ''AvgSalesPrice'' = Inr res
        \<and> length res = 3
        \<and> filter (\<lambda>r. AvgSalesPrice r = Fin 20000 \<and> AvgSalesPrice r = Fin 20000) res
            = [mk_row 2020 ''Odense'' ''Actual price'' (Fin 20000) (Fin 5),
               mk_row 2020 ''Aarhus'' ''Actual price'' (Fin 20000) (Fin 5)])
   \<and> (\<exists>res. top_n_most_expensive stable_argsort top_n_panel 2020 2 ''AvgSalesPrice'' = Inr res
        \<and> length res = 2
        \<and> filter (\<lambda>r. AvgSalesPrice r = Fin 20000 \<and> AvgSalesPrice r = Fin 20000) res
            = [mk_row 2020 ''Odense'' ''Actual price'' (Fin 20000) (Fin 5)])"
proof -
  let ?od = "mk_row 2020 ''Odense'' ''Actual price'' (Fin 20000) (Fin 5)"
  let ?cph = "mk_row 2020 ''Copenhagen'' ''Actual price'' (Fin 30000) (Fin 3)"
  let ?aar = "mk_row 2020 ''Aarhus'' ''Actual price'' (Fin 20000) (Fin 5)"
  let ?pool = "[?od, ?cph, ?aar]"
  let ?before = "\<lambda>r. AvgSalesPrice r \<noteq> NaN
       \<and> (Fin 20000 = NaN \<or> sort_rank (Fin 20000) < sort_rank (AvgSalesPrice r))"
  have col: "column ''AvgSalesPrice'' = Some AvgSalesPrice" by (simp add: column_def)
  have pool: "?pool = filter (\<lambda>r. Municipality r \<noteq> ''National average'')
                        (filter (\<lambda>r. Year r = 2020) top_n_panel)"
    by code_simp
  have len: "length ?pool \<le> 16" by simp
  have m10: "min 10 (length ?pool) = 3" and m2: "min 2 (length ?pool) = 2" by simp_all
  have e10: "filter (\<lambda>r. AvgSalesPrice r = Fin 20000)
               (take (10 - length (filter ?before ?pool))
                  (filter (\<lambda>r. AvgSalesPrice r = Fin 20000) ?pool)) = [?od, ?aar]"
    by code_simp
  have e2: "filter (\<lambda>r. AvgSalesPrice r = Fin 20000)
               (take (2 - length (filter ?before ?pool))
                  (filter (\<lambda>r. AvgSalesPrice r = Fin 20000) ?pool)) = [?od]"
    by code_simp
  from top_n_ties_in_input_order [of 16 stable_argsort, OF refl col pool len,
      of 10 "Fin 20000" "Fin 20000"]
  obtain res where "top_n_most_expensive stable_argsort top_n_panel 2020 10 ''AvgSalesPrice'' = Inr res"
    and "length res = min 10 (length ?pool)"
    and "filter (\<lambda>r. AvgSalesPrice r = Fin 20000 \<and> AvgSalesPrice r = Fin 20000) res
           = filter (\<lambda>r. AvgSalesPrice r = Fin 20000)
               (take (10 - length (filter ?before ?pool))
                  (filter (\<lambda>r. AvgSalesPrice r = Fin 20000) ?pool))"
    by blast
  then have w10: "\<exists>res. top_n_most_expensive stable_argsort top_n_panel 2020 10 ''AvgSalesPrice'' = Inr res
        \<and> length res = 3
        \<and> filter (\<lambda>r. AvgSalesPrice r = Fin 20000 \<and> AvgSalesPrice r = Fin 20000) res = [?od, ?aar]"
    unfolding m10 e10 by blast
  from top_n_ties_in_input_order [of 16 stable_argsort, OF refl col pool len,
      of 2 "Fin 20000" "Fin 20000"]
  obtain res where "top_n_most_expensive stable_argsort top_n_panel 2020 2 ''AvgSalesPrice'' = Inr res"
    and "length res = min 2 (length ?pool)"
    and "filter (\<lambda>r. AvgSalesPrice r = Fin 20000 \<and> AvgSalesPrice r = Fin 20000) res
           = filter (\<lambda>r. AvgSalesPrice r = Fin 20000)
               (take (2 - length (filter ?before ?pool))
                  (filter (\<lambda>r. AvgSalesPrice r = Fin 20000) ?pool))"
    by blast
  then have w2: "\<exists>res. top_n_most_expensive stable_argsort top_n_panel 2020 2 ''AvgSalesPrice'' = Inr res
        \<and> length res = 2
        \<and> filter (\<lambda>r. AvgSalesPrice r = Fin 20000 \<and> AvgSalesPrice r = Fin 20000) res = [?od]"
    unfolding m2 e2 by blast
  from w10 w2 show ?thesis by (rule conjI)
qed

section \<open>Geo plot table (claim C10)\<close>

text \<open>
  Claim C10. The table built for the geo plot by selecting the rows whose \<open>PriceType\<close>
  equals the selected year is empty for every table and every year: the column holds
  strings and the year is an integer.
\<close>

theorem geo_plot_table_empty:
  "data_selected_year data_to_display year_to_show = []"
  by (simp add: data_selected_year_def)

theorem geo_plot_table_empty_witness:
  "data_selected_year ten_year_panel 2020 = []"
  using geo_plot_table_empty [of ten_year_panel 2020] .

section \<open>Rounding (claim C9)\<close>

lemma is_finite_np_round: "is_finite (np_round v d) = is_finite v"
  by (cases v) (simp_all add: is_finite_def np_round_def)

text \<open>
  The same affordability value keeps two decimals on the page "Affordability by
  municipality", one decimal in the table of historical changes and none on the
  affordability overview.
\<close>

theorem rounding_counterexample:
  "page_afford_by_mncp_round ''M2AffordedTotal'' (Fin 12.34) = Fin 12.34
   \<and> page_hist_changes_round ''M2AffordedTotal'' (Fin 12.34) = Inr (Fin 12.3)
   \<and> page_annual_afford_overview_round (Fin 12.34) = Fin 12"
  by code_simp

lemma column_map_column:
  assumes "column c = Some f"
  shows "f (map_column c g r) = g (f r)"
proof -
  consider "c = ''AvgSalesPrice''" "f = AvgSalesPrice"
    | "c = ''AvgSalesPriceIdx''" "f = AvgSalesPriceIdx"
    | "c = ''M2AffordedTotal''" "f = M2AffordedTotal"
    | "c = ''YearsoBuy50M2Total''" "f = YearsoBuy50M2Total"
    using assms by (auto simp: column_def split: if_splits)
  then show ?thesis
    by cases (simp_all add: map_column_def)
qed

text \<open>
  Claim C9, as the code has it. The number of decimals is chosen at each call site. In
  the views of the pages "Pricing by municipality" and "Pricing overview" the chosen
  metric column is the column of the input rounded to 0 decimals for the absolute price
  and to 2 decimals for the price index. In the table of historical changes a finite
  price is rounded to 0 decimals and the affordability metrics to 1 decimal; the page
  "Affordability by municipality" rounds the affordability metrics to 2 decimals, and
  the affordability overview rounds \<open>M2AffordedTotal\<close> to 0 decimals.
\<close>

theorem rounding_by_call_site:
  "(column m = Some f \<longrightarrow>
      (\<exists>d. page_avg_by_mncp_data df n locs pts m = Inr d
          \<and> map f d = map (\<lambda>r. np_round (f r) (if m = ''AvgSalesPrice'' then 0 else 2))
                         (page_avg_by_mncp_filter df n locs pts))
    \<and> (\<exists>d. page_annual_price_overview_data df pts m = Inr d
          \<and> map f d = map (\<lambda>r. np_round (f r) (if m = ''AvgSalesPrice'' then 0 else 2))
                         (filter (\<lambda>r. PriceType r \<in> set pts) df)))
   \<and> (is_finite v \<longrightarrow> page_hist_changes_round ''AvgSalesPrice'' v = Inr (np_round v 0))
   \<and> (m = ''M2AffordedTotal'' \<or> m = ''YearsoBuy50M2Total''
        \<longrightarrow> page_afford_by_mncp_round m v = np_round v 2
            \<and> page_hist_changes_round m v = Inr (np_round v 1))
   \<and> page_annual_afford_overview_round v = np_round v 0"
proof -
  have views: "(\<exists>d. page_avg_by_mncp_data df n locs pts m = Inr d
          \<and> map f d = map (\<lambda>r. np_round (f r) (if m = ''AvgSalesPrice'' then 0 else 2))
                         (page_avg_by_mncp_filter df n locs pts))
    \<and> (\<exists>d. page_annual_price_overview_data df pts m = Inr d
          \<and> map f d = map (\<lambda>r. np_round (f r) (if m = ''AvgSalesPrice'' then 0 else 2))
                         (filter (\<lambda>r. PriceType r \<in> set pts) df))"
    if col: "column m = Some f"
  proof -
    have r1: "f (map_column m (page_avg_by_mncp_round m) r)
                = np_round (f r) (if m = ''AvgSalesPrice'' then 0 else 2)" for r
      by (simp add: column_map_column [OF col] page_avg_by_mncp_round_def)
    have r2: "f (map_column m (page_annual_price_overview_round m) r)
                = np_round (f r) (if m = ''AvgSalesPrice'' then 0 else 2)" for r
      by (simp add: column_map_column [OF col] page_annual_price_overview_round_def)
    show ?thesis
      using col
      by (simp add: page_avg_by_mncp_data_def page_annual_price_overview_data_def Let_def
          comp_def r1 r2)
  qed
  have ne: "m = ''M2AffordedTotal'' \<or> m = ''YearsoBuy50M2Total'' \<Longrightarrow> m \<noteq> ''AvgSalesPrice''"
    by auto
  have rest: "(is_finite v \<longrightarrow> page_hist_changes_round ''AvgSalesPrice'' v = Inr (np_round v 0))
   \<and> (m = ''M2AffordedTotal'' \<or> m = ''YearsoBuy50M2Total''
        \<longrightarrow> page_afford_by_mncp_round m v = np_round v 2
            \<and> page_hist_changes_round m v = Inr (np_round v 1))
   \<and> page_annual_afford_overview_round v = np_round v 0"
    using ne
    by (simp add: page_hist_changes_round_def page_afford_by_mncp_round_def
        page_annual_afford_overview_round_def is_finite_np_round)
  from views rest show ?thesis by blast
qed

theorem rounding_by_call_site_witness:
  "column ''AvgSalesPrice'' = Some AvgSalesPrice
   \<and> (\<exists>d. page_avg_by_mncp_data (map_recency complete_panel complete_panel) 1 [''Aarhus'']
             [''Actual price''] ''AvgSalesPrice'' = Inr d
          \<and> map AvgSalesPrice d = [Fin 150])
   \<and> is_finite (Fin 12.34)
   \<and> page_hist_changes_round ''AvgSalesPrice'' (Fin 12.34) = Inr (np_round (Fin 12.34) 0)
   \<and> page_afford_by_mncp_round ''M2AffordedTotal'' (Fin 12.34) = np_round (Fin 12.34) 2
   \<and> page_hist_changes_round ''M2AffordedTotal'' (Fin 12.34) = Inr (np_round (Fin 12.34) 1)
   \<and> page_annual_afford_overview_round (Fin 12.34) = np_round (Fin 12.34) 0"
proof -
  let ?df = "map_recency complete_panel complete_panel"
  have col: "column ''AvgSalesPrice'' = Some AvgSalesPrice" by (simp add: column_def)
  have h: "is_finite (Fin 12.34)" by (simp add: is_finite_def)
  have v: "map (\<lambda>r. np_round (AvgSalesPrice r) (if ''AvgSalesPrice'' = ''AvgSalesPrice'' then 0 else 2))
             (page_avg_by_mncp_filter ?df 1 [''Aarhus''] [''Actual price'']) = [Fin 150]"
    by code_simp
  from rounding_by_call_site [of "''AvgSalesPrice''" AvgSalesPrice ?df 1 "[''Aarhus'']"
      "[''Actual price'']" "Fin 12.34"] col
  have "\<exists>d. page_avg_by_mncp_data ?df 1 [''Aarhus''] [''Actual price''] ''AvgSalesPrice'' = Inr d
          \<and> map AvgSalesPrice d = [Fin 150]"
    and "page_hist_changes_round ''AvgSalesPrice'' (Fin 12.34) = Inr (np_round (Fin 12.34) 0)"
    and "page_annual_afford_overview_round (Fin 12.34) = np_round (Fin 12.34) 0"
    unfolding v using h by blast+
  moreover from rounding_by_call_site [of "''M2AffordedTotal''" M2AffordedTotal ?df 1 "[]" "[]"
      "Fin 12.34"]
  have "page_afford_by_mncp_round ''M2AffordedTotal'' (Fin 12.34) = np_round (Fin 12.34) 2"
    and "page_hist_changes_round ''M2AffordedTotal'' (Fin 12.34) = Inr (np_round (Fin 12.34) 1)"
    by blast+
  ultimately show ?thesis using col h by simp
qed

section \<open>Pivot and percent change: the computed table\<close>

lemma map_result_Inr:
  "(\<And>x. x \<in> set xs \<Longrightarrow> g x = Inr (h x)) \<Longrightarrow> map_result g xs = Inr (map h xs)"
  by (induction xs) simp_all

lemma page_hist_changes_sorted_set:
  "set (page_hist_changes_sorted data) = set data"
  by (simp add: page_hist_changes_sorted_def)

lemma page_hist_changes_sorted_distinct:
  "distinct (map k (page_hist_changes_sorted data)) = distinct (map k data)"
  by (simp add: page_hist_changes_sorted_def distinct_map rev_map [symmetric])

lemma pcell_row:
  assumes "distinct (map (\<lambda>r. (Municipality r, Year r)) data)" and "r \<in> set data"
  shows "pcell (unstack f data) (Municipality r) (Year r) = f r"
proof -
  let ?t = "unstack f data"
  have "distinct (map fst (pvals ?t))"
    using assms(1) by (simp add: unstack_def comp_def)
  moreover have "((Municipality r, Year r), f r) \<in> set (pvals ?t)"
    using assms(2) by (auto simp: unstack_def)
  ultimately have "map_of (pvals ?t) (Municipality r, Year r) = Some (f r)"
    by (rule map_of_is_SomeI)
  then show ?thesis by (simp add: pcell_def)
qed

lemma pcell_missing:
  assumes "\<forall>r \<in> set data. \<not> (Municipality r = m \<and> Year r = y)"
  shows "pcell (unstack f data) m y = NaN"
proof -
  have "(m, y) \<notin> fst ` set (pvals (unstack f data))"
    using assms by (auto simp: unstack_def)
  then have "map_of (pvals (unstack f data)) (m, y) = None"
    by (simp add: map_of_eq_None_iff)
  then show ?thesis by (simp add: pcell_def)
qed

lemma round_change_row_Inr:
  assumes "metric = ''AvgSalesPrice'' \<longrightarrow> is_finite (base_val c) \<and> is_finite (ref_val c)"
  shows "round_change_row metric c =
           Inr (c\<lparr>base_val := np_round (base_val c) (if metric = ''AvgSalesPrice'' then 0 else 1),
                  ref_val := np_round (ref_val c) (if metric = ''AvgSalesPrice'' then 0 else 1)\<rparr>)"
  using assms
  by (simp add: round_change_row_def page_hist_changes_round_def is_finite_np_round)

text \<open>
  The table of the page when nothing raises: the value column exists, no two rows share
  municipality and year, both years occur, and for the price no cell is missing or
  not finite.
\<close>

lemma hist_table_result:
  fixes df pts base ref metric f
  defines "data \<equiv> page_hist_changes_filter df pts [base, ref]"
  defines "t \<equiv> unstack f (page_hist_changes_sorted (page_hist_changes_filter df pts [base, ref]))"
  defines "dec \<equiv> (if metric = ''AvgSalesPrice'' then 0 else 1 :: nat)"
  assumes col: "column metric = Some f"
    and dist: "distinct (map (\<lambda>r. (Municipality r, Year r)) data)"
    and yb: "\<exists>r \<in> set data. Year r = base"
    and yr: "\<exists>r \<in> set data. Year r = ref"
    and cast: "metric = ''AvgSalesPrice'' \<longrightarrow>
                 (\<forall>m \<in> Municipality ` set data. \<forall>y \<in> {base, ref}.
                    \<exists>r \<in> set data. Municipality r = m \<and> Year r = y \<and> is_finite (f r))"
  shows "page_hist_changes_table df pts base ref metric =
       Inr (map (\<lambda>m. \<lparr>mncp = m,
                       base_val = np_round (pcell t m base) dec,
                       ref_val = np_round (pcell t m ref) dec,
                       pct_change = pct_change_of (pcell t m ref) (pcell t m base)\<rparr>) (pindex t))"
proof -
  let ?key = "\<lambda>r. (Municipality r, Year r)"
  let ?srt = "page_hist_changes_sorted data"
  let ?line = "\<lambda>m. \<lparr>mncp = m, base_val = pcell t m base, ref_val = pcell t m ref,
                      pct_change = pct_change_of (pcell t m ref) (pcell t m base)\<rparr>"
  let ?rline = "\<lambda>m. \<lparr>mncp = m, base_val = np_round (pcell t m base) dec,
                      ref_val = np_round (pcell t m ref) dec,
                      pct_change = pct_change_of (pcell t m ref) (pcell t m base)\<rparr>"
  have t: "t = unstack f ?srt" by (simp add: t_def data_def)
  have dist_srt: "distinct (map ?key ?srt)"
    using dist by (simp add: page_hist_changes_sorted_distinct)
  have piv: "pivot ?srt metric = Inr t"
    using col dist_srt by (simp add: pivot_def t)
  have cols: "set (pcolumns t) = Year ` set data"
    by (simp add: t unstack_def set_unique page_hist_changes_sorted_set)
  have idx_set: "set (pindex t) = Municipality ` set data"
    by (simp add: t unstack_def set_unique page_hist_changes_sorted_set)
  have cell_row: "pcell t (Municipality r) (Year r) = f r" if "r \<in> set data" for r
    unfolding t using dist_srt that
    by (intro pcell_row) (simp_all add: page_hist_changes_sorted_set)
  have in_cols: "ref \<in> set (pcolumns t)" "base \<in> set (pcolumns t)"
    using yb yr cols by auto
  have fin: "is_finite (pcell t m y)"
    if "metric = ''AvgSalesPrice''" "m \<in> set (pindex t)" "y \<in> {base, ref}" for m y
  proof -
    from that cast idx_set obtain r where
      "r \<in> set data" "Municipality r = m" "Year r = y" "is_finite (f r)" by blast
    with cell_row [of r] show ?thesis by simp
  qed
  have round: "round_change_row metric (?line m) = Inr (?rline m)" if "m \<in> set (pindex t)" for m
  proof -
    have "metric = ''AvgSalesPrice'' \<longrightarrow>
            is_finite (base_val (?line m)) \<and> is_finite (ref_val (?line m))"
      using fin that by simp
    then show ?thesis
      unfolding dec_def by (simp add: round_change_row_Inr)
  qed
  have "map_result (round_change_row metric) (map ?line (pindex t)) = Inr (map ?rline (pindex t))"
  proof -
    have "map_result (round_change_row metric) (map ?line (pindex t))
            = Inr (map (\<lambda>c. ?rline (mncp c)) (map ?line (pindex t)))"
      by (rule map_result_Inr) (auto simp: round)
    then show ?thesis by (simp add: comp_def)
  qed
  moreover have "page_hist_changes_table df pts base ref metric
                   = map_result (round_change_row metric) (map ?line (pindex t))"
    using piv in_cols
    by (simp add: page_hist_changes_table_def Let_def data_def [symmetric])
  ultimately show ?thesis by simp
qed

lemma hist_table_index:
  "set (pindex (unstack f (page_hist_changes_sorted data))) = Municipality ` set data"
  "distinct (pindex (unstack f (page_hist_changes_sorted data)))"
  by (simp_all add: unstack_def set_unique distinct_unique page_hist_changes_sorted_set)

lemma hist_table_cell_row:
  assumes "distinct (map (\<lambda>r. (Municipality r, Year r)) data)" and "r \<in> set data"
  shows "pcell (unstack f (page_hist_changes_sorted data)) (Municipality r) (Year r) = f r"
  using assms
  by (intro pcell_row) (simp_all add: page_hist_changes_sorted_set page_hist_changes_sorted_distinct)

lemma hist_table_cell_missing:
  assumes "\<forall>r \<in> set data. \<not> (Municipality r = m \<and> Year r = y)"
  shows "pcell (unstack f (page_hist_changes_sorted data)) m y = NaN"
  using assms by (intro pcell_missing) (simp add: page_hist_changes_sorted_set)

lemma change_type_unknown: "change_type txt v = ''Unknown change'' \<longleftrightarrow> v = NaN"
  by (cases v) (simp_all add: change_type_def flt0_def feq0_def fgt0_def)

lemma chart_unknown_count:
  assumes "t \<in> set tbl" "mncp t \<noteq> ''National average''" "pct_change t = NaN"
  shows "(''Unknown change'',
          length (remdups (map mncp
            (filter (\<lambda>c. mncp c \<noteq> ''National average'' \<and> pct_change c = NaN) tbl))))
         \<in> set (page_hist_changes_chart tbl metric)"
proof -
  let ?txt = "txt_for_title metric"
  let ?dfc = "filter (\<lambda>p. fst p \<noteq> ''National average'')
                (map (\<lambda>c. (mncp c, change_type ?txt (pct_change c))) tbl)"
  let ?cnt = "\<lambda>ct. (ct, length (remdups (map fst (filter (\<lambda>p. snd p = ct) ?dfc))))"
  have "(mncp t, ''Unknown change'') \<in> set ?dfc"
  proof -
    have "change_type ?txt (pct_change t) = ''Unknown change''"
      using assms(3) by (simp only: change_type_unknown)
    then have "(mncp t, ''Unknown change'')
                 \<in> (\<lambda>c. (mncp c, change_type ?txt (pct_change c))) ` set tbl"
      using assms(1) by (metis (mono_tags, lifting) image_eqI)
    with assms(2) show ?thesis by simp
  qed
  then have "snd (mncp t, ''Unknown change'') \<in> snd ` set ?dfc" by (rule imageI)
  then have mem: "''Unknown change'' \<in> set (unique (map snd ?dfc))"
    by (simp only: set_unique set_map snd_conv)
  have names: "map fst (filter (\<lambda>p. snd p = ''Unknown change'') ?dfc)
          = map mncp (filter (\<lambda>c. mncp c \<noteq> ''National average'' \<and> pct_change c = NaN) tbl)"
    by (induction tbl) (simp_all add: change_type_unknown)
  from mem have "?cnt ''Unknown change'' \<in> ?cnt ` set (unique (map snd ?dfc))" by (rule imageI)
  then have "?cnt ''Unknown change'' \<in> set (page_hist_changes_chart tbl metric)"
    by (simp only: page_hist_changes_chart_def Let_def set_map)
  then show ?thesis by (simp only: names)
qed

section \<open>Float arithmetic: zero, the special values and the nearest integer\<close>

lemma round_f64_0: "round_f64 0 = Fin 0"
  by (simp add: round_f64_def)

lemma fmul_commute: "fmul a b = fmul b a"
  by (cases a; cases b) (simp_all add: mult.commute)

lemma np_round_f64_special:
  "np_round_f64 NaN d = NaN" "np_round_f64 PosInf d = PosInf" "np_round_f64 NegInf d = NegInf"
  by (simp_all add: np_round_f64_def)

lemma rint_0: "rint 0 = 0"
  by (simp add: rint_def)

lemma np_round_f64_0: "np_round_f64 (Fin 0) d = Fin 0"
  by (simp add: np_round_f64_def round_f64_0 rint_0)

lemma pct_change_of_NaN: "pct_change_of v NaN = NaN" "pct_change_of NaN b = NaN"
  by (cases v; simp add: pct_change_of_def np_round_f64_special)+

lemma pct_change_of_same: "pct_change_of v v = Fin 0 \<or> pct_change_of v v = NaN"
  by (cases v) (simp_all add: pct_change_of_def np_round_f64_special round_f64_0 np_round_f64_0)

lemma pct_change_of_zero_base:
  assumes "x \<noteq> 0" "is_f64 x"
  shows "pct_change_of (Fin x) (Fin 0) = (if 0 < x then PosInf else NegInf)"
  using assms by (simp add: pct_change_of_def is_f64_def np_round_f64_special)

lemma rint_cases:
  obtains (down) "rint z = \<lfloor>z\<rfloor>" "z - of_int \<lfloor>z\<rfloor> < 1 / 2"
    | (up) "rint z = \<lfloor>z\<rfloor> + 1" "1 / 2 < z - of_int \<lfloor>z\<rfloor>"
    | (tie_even) "rint z = \<lfloor>z\<rfloor>" "z - of_int \<lfloor>z\<rfloor> = 1 / 2" "even \<lfloor>z\<rfloor>"
    | (tie_odd) "rint z = \<lfloor>z\<rfloor> + 1" "z - of_int \<lfloor>z\<rfloor> = 1 / 2" "odd \<lfloor>z\<rfloor>"
  by (cases "z - of_int \<lfloor>z\<rfloor> < 1 / 2"; cases "1 / 2 < z - of_int \<lfloor>z\<rfloor>"; cases "even \<lfloor>z\<rfloor>")
     (simp_all add: rint_def Let_def)

text \<open>\<open>rint\<close> gives a nearest integer, and the even one of the two at a tie.\<close>

lemma rint_nearest:
  "\<bar>of_int (rint z) - z\<bar> \<le> 1 / 2"
  "\<bar>of_int (rint z) - z\<bar> = 1 / 2 \<Longrightarrow> even (rint z)"
proof -
  define f :: real where "f = of_int \<lfloor>z\<rfloor>"
  have lo: "f \<le> z" and hi: "z < f + 1" unfolding f_def by linarith+
  consider (down) "of_int (rint z) = f" "z - f < 1 / 2"
    | (up) "of_int (rint z) = f + 1" "1 / 2 < z - f"
    | (tie) "z - f = 1 / 2" "even (rint z)"
    unfolding f_def by (cases z rule: rint_cases) simp_all
  note cases = this
  show "\<bar>of_int (rint z) - z\<bar> \<le> 1 / 2"
  proof (cases rule: cases)
    case down with lo hi show ?thesis by linarith
  next
    case up with lo hi show ?thesis by linarith
  next
    case tie
    from rint_cases [of z] have "of_int (rint z) = f \<or> of_int (rint z) = f + 1"
      unfolding f_def by (metis of_int_1 of_int_add)
    with tie lo hi show ?thesis by linarith
  qed
  show "even (rint z)" if "\<bar>of_int (rint z) - z\<bar> = 1 / 2"
  proof (cases rule: cases)
    case down with lo hi that show ?thesis by linarith
  next
    case up with lo hi that show ?thesis by linarith
  next
    case tie then show ?thesis by simp
  qed
qed

text \<open>
  What \<open>np_round_f64\<close> with one decimal gives for a finite value whose product with
  ten is finite: the float64 number nearest to \<open>k / 10\<close>, for the integer \<open>k\<close>
  nearest to that product.
\<close>

lemma np_round_f64_one_decimal:
  assumes "round_f64 (y * 10) = Fin z"
  shows "\<exists>k::int. \<bar>of_int k - z\<bar> \<le> 1 / 2 \<and> (\<bar>of_int k - z\<bar> = 1 / 2 \<longrightarrow> even k)
           \<and> np_round_f64 (Fin y) 1 = round_f64 (of_int k / 10)"
proof (intro exI [of _ "rint z"] conjI impI)
  show "\<bar>of_int (rint z) - z\<bar> \<le> 1 / 2" by (rule rint_nearest)
  show "even (rint z)" if "\<bar>of_int (rint z) - z\<bar> = 1 / 2" using that by (rule rint_nearest)
  show "np_round_f64 (Fin y) 1 = round_f64 (of_int (rint z) / 10)"
    using assms by (simp add: np_round_f64_def)
qed

section \<open>Percent change (claim C2)\<close>

text \<open>
  Claim C2. When the page computes its table (the value column exists, no two rows share
  municipality and year, and for the price no cell is missing or not finite), the table
  has exactly one line for a municipality with a row for the base year and a row for the
  reference year, and the "% change" of that line is
  \<open>round((value[ref] - value[base]) / value[base] * 100, 1)\<close> of the values of
  those two rows, computed in float64: when the percentage and its product with ten are
  finite, it is the float64 number nearest to \<open>k / 10\<close> for the integer \<open>k\<close>
  nearest to that product (the even one at a tie). When the base value is 0 and the
  reference value is a nonzero float64 number, nothing is raised and the "% change" of
  that line is the infinity with the sign of the reference value, not 0.0. The line of a municipality is computed from the
  rows of that municipality alone.
\<close>

theorem pct_change_formula:
  assumes data: "data = page_hist_changes_filter df price_types [base_year, ref_year]"
    and col: "column metric_for_use = Some f"
    and dist: "distinct (map (\<lambda>r. (Municipality r, Year r)) data)"
    and cast: "metric_for_use = ''AvgSalesPrice'' \<longrightarrow>
                 (\<forall>m \<in> Municipality ` set data. \<forall>y \<in> {base_year, ref_year}.
                    \<exists>r \<in> set data. Municipality r = m \<and> Year r = y \<and> is_finite (f r))"
    and rb: "rb \<in> set data" "Year rb = base_year"
    and rr: "rr \<in> set data" "Year rr = ref_year" "Municipality rr = Municipality rb"
  shows "\<exists>tbl. page_hist_changes_table df price_types base_year ref_year metric_for_use = Inr tbl
           \<and> distinct (map mncp tbl)
           \<and> (\<exists>t \<in> set tbl. mncp t = Municipality rb)
           \<and> (\<forall>t \<in> set tbl. mncp t = Municipality rb \<longrightarrow>
                 pct_change t = np_round_f64 (fmul (fdiv (fsub (f rr) (f rb)) (f rb)) (Fin 100)) 1
               \<and> (\<forall>y z. fmul (fdiv (fsub (f rr) (f rb)) (f rb)) (Fin 100) = Fin y
                          \<and> round_f64 (y * 10) = Fin z \<longrightarrow>
                      (\<exists>k::int. \<bar>of_int k - z\<bar> \<le> 1 / 2
                          \<and> (\<bar>of_int k - z\<bar> = 1 / 2 \<longrightarrow> even k)
                          \<and> pct_change t = round_f64 (of_int k / 10)))
               \<and> (\<forall>x. f rb = Fin 0 \<and> f rr = Fin x \<and> x \<noteq> 0 \<and> is_f64 x \<longrightarrow>
                      pct_change t = (if 0 < x then PosInf else NegInf) \<and> pct_change t \<noteq> Fin 0))"
proof -
  define t where "t = unstack f (page_hist_changes_sorted data)"
  define dec :: nat where "dec = (if metric_for_use = ''AvgSalesPrice'' then 0 else 1)"
  define tbl where "tbl = map (\<lambda>m. \<lparr>mncp = m,
                       base_val = np_round (pcell t m base_year) dec,
                       ref_val = np_round (pcell t m ref_year) dec,
                       pct_change = pct_change_of (pcell t m ref_year) (pcell t m base_year)\<rparr>)
                     (pindex t)"
  define pct where "pct = fmul (fdiv (fsub (f rr) (f rb)) (f rb)) (Fin 100)"
  have yb: "\<exists>r \<in> set data. Year r = base_year" and yr: "\<exists>r \<in> set data. Year r = ref_year"
    using rb rr by auto
  have res: "page_hist_changes_table df price_types base_year ref_year metric_for_use = Inr tbl"
    using hist_table_result [OF col dist [unfolded data] yb [unfolded data] yr [unfolded data]
        cast [unfolded data]]
    by (simp add: tbl_def t_def dec_def data)
  have names: "map mncp tbl = pindex t" by (simp add: tbl_def comp_def)
  have idx: "set (pindex t) = Municipality ` set data" "distinct (pindex t)"
    by (simp_all add: t_def hist_table_index)
  have cb: "pcell t (Municipality rb) base_year = f rb"
    using hist_table_cell_row [OF dist rb(1), of f] rb(2) by (simp add: t_def)
  have cr: "pcell t (Municipality rb) ref_year = f rr"
    using hist_table_cell_row [OF dist rr(1), of f] rr(2,3) by (simp add: t_def)
  have pct: "pct_change c = pct_change_of (f rr) (f rb)"
    if "c \<in> set tbl" "mncp c = Municipality rb" for c
    using that cb cr by (auto simp: tbl_def)
  have formula: "pct_change_of (f rr) (f rb) = np_round_f64 pct 1"
    unfolding pct_def pct_change_of_def by (simp only: fmul_commute [of "Fin 100"])
  have nearest: "\<exists>k::int. \<bar>of_int k - z\<bar> \<le> 1 / 2 \<and> (\<bar>of_int k - z\<bar> = 1 / 2 \<longrightarrow> even k)
                   \<and> pct_change_of (f rr) (f rb) = round_f64 (of_int k / 10)"
    if "pct = Fin y \<and> round_f64 (y * 10) = Fin z" for y z
    using np_round_f64_one_decimal [of y z] that by (simp add: formula)
  have zero: "pct_change_of (f rr) (f rb) = (if 0 < x then PosInf else NegInf)
                \<and> pct_change_of (f rr) (f rb) \<noteq> Fin 0"
    if "f rb = Fin 0 \<and> f rr = Fin x \<and> x \<noteq> 0 \<and> is_f64 x" for x
    using that by (simp add: pct_change_of_zero_base)
  have d: "distinct (map mncp tbl)" using idx(2) names by simp
  have ex: "\<exists>c \<in> set tbl. mncp c = Municipality rb"
  proof -
    have "Municipality rb \<in> set (map mncp tbl)" using idx(1) rb(1) names by simp
    then show ?thesis by auto
  qed
  have all: "\<forall>c \<in> set tbl. mncp c = Municipality rb \<longrightarrow>
                 pct_change c = np_round_f64 pct 1
               \<and> (\<forall>y z. pct = Fin y \<and> round_f64 (y * 10) = Fin z \<longrightarrow>
                      (\<exists>k::int. \<bar>of_int k - z\<bar> \<le> 1 / 2
                          \<and> (\<bar>of_int k - z\<bar> = 1 / 2 \<longrightarrow> even k)
                          \<and> pct_change c = round_f64 (of_int k / 10)))
               \<and> (\<forall>x. f rb = Fin 0 \<and> f rr = Fin x \<and> x \<noteq> 0 \<and> is_f64 x \<longrightarrow>
                      pct_change c = (if 0 < x then PosInf else NegInf) \<and> pct_change c \<noteq> Fin 0)"
  proof (intro ballI impI)
    fix c assume c: "c \<in> set tbl" "mncp c = Municipality rb"
    have p: "pct_change c = pct_change_of (f rr) (f rb)" using c by (rule pct)
    show "pct_change c = np_round_f64 pct 1
               \<and> (\<forall>y z. pct = Fin y \<and> round_f64 (y * 10) = Fin z \<longrightarrow>
                      (\<exists>k::int. \<bar>of_int k - z\<bar> \<le> 1 / 2
                          \<and> (\<bar>of_int k - z\<bar> = 1 / 2 \<longrightarrow> even k)
                          \<and> pct_change c = round_f64 (of_int k / 10)))
               \<and> (\<forall>x. f rb = Fin 0 \<and> f rr = Fin x \<and> x \<noteq> 0 \<and> is_f64 x \<longrightarrow>
                      pct_change c = (if 0 < x then PosInf else NegInf) \<and> pct_change c \<noteq> Fin 0)"
      unfolding p
    proof (intro conjI allI impI)
      show "pct_change_of (f rr) (f rb) = np_round_f64 pct 1" by (rule formula)
    next
      fix y z assume "pct = Fin y \<and> round_f64 (y * 10) = Fin z"
      then show "\<exists>k::int. \<bar>of_int k - z\<bar> \<le> 1 / 2 \<and> (\<bar>of_int k - z\<bar> = 1 / 2 \<longrightarrow> even k)
                   \<and> pct_change_of (f rr) (f rb) = round_f64 (of_int k / 10)"
        by (rule nearest)
    next
      fix x assume a: "f rb = Fin 0 \<and> f rr = Fin x \<and> x \<noteq> 0 \<and> is_f64 x"
      from zero [OF a]
      show "pct_change_of (f rr) (f rb) = (if 0 < x then PosInf else NegInf)"
        by (rule conjunct1)
    next
      fix x assume a: "f rb = Fin 0 \<and> f rr = Fin x \<and> x \<noteq> 0 \<and> is_f64 x"
      from zero [OF a] show "pct_change_of (f rr) (f rb) \<noteq> Fin 0" by (rule conjunct2)
    qed
  qed
  from res d ex all show ?thesis unfolding pct_def by (intro exI [of _ tbl] conjI)
qed

theorem pct_change_formula_witness:
  "(\<exists>tbl t. page_hist_changes_table pct_panel [''Actual price'', ''Estimated price'']
                 2000 2010 ''AvgSalesPrice'' = Inr tbl
           \<and> t \<in> set tbl \<and> mncp t = ''Aarhus'' \<and> pct_change t = round_f64 (287 / 10))
   \<and> round_f64 (287 / 10) = Fin (8078331831595827 / 2 ^ 48)
   \<and> round_f64 (287 / 10) \<noteq> round_f64 (288 / 10)
   \<and> (\<exists>tbl t. page_hist_changes_table pct_panel [''Actual price'', ''Estimated price'']
                 2000 2010 ''AvgSalesPrice'' = Inr tbl
           \<and> t \<in> set tbl \<and> mncp t = ''Odense'' \<and> pct_change t = Fin 50)
   \<and> is_f64 2.25
   \<and> (\<exists>tbl t. page_hist_changes_table pct_panel [''Actual price'', ''Estimated price'']
                 2000 2010 ''M2AffordedTotal'' = Inr tbl
           \<and> t \<in> set tbl \<and> mncp t = ''Aarhus''
           \<and> pct_change t = PosInf \<and> pct_change t \<noteq> Fin 0)"
proof -
  let ?pts = "[''Actual price'', ''Estimated price'']"
  let ?data = "page_hist_changes_filter pct_panel ?pts [2000, 2010]"
  let ?rb = "mk_row 2000 ''Aarhus'' ''Actual price'' (Fin 80) (Fin 0)"
  let ?rr = "mk_row 2010 ''Aarhus'' ''Actual price'' (Fin 103) (Fin 2.25)"
  let ?ob = "mk_row 2000 ''Odense'' ''Estimated price'' (Fin 100) (Fin 4)"
  let ?or = "mk_row 2010 ''Odense'' ''Actual price'' (Fin 150) (Fin 3)"
  have col1: "column ''AvgSalesPrice'' = Some AvgSalesPrice"
    and col2: "column ''M2AffordedTotal'' = Some M2AffordedTotal"
    by (simp_all add: column_def)
  have dist: "distinct (map (\<lambda>r. (Municipality r, Year r)) ?data)" by code_simp
  have cast1: "''AvgSalesPrice'' = ''AvgSalesPrice'' \<longrightarrow>
                 (\<forall>m \<in> Municipality ` set ?data. \<forall>y \<in> {2000, 2010}.
                    \<exists>r \<in> set ?data. Municipality r = m \<and> Year r = y \<and> is_finite (AvgSalesPrice r))"
    by code_simp
  have cast2: "''M2AffordedTotal'' = ''AvgSalesPrice'' \<longrightarrow>
                 (\<forall>m \<in> Municipality ` set ?data. \<forall>y \<in> {2000, 2010}.
                    \<exists>r \<in> set ?data. Municipality r = m \<and> Year r = y \<and> is_finite (M2AffordedTotal r))"
    by simp
  have rb: "?rb \<in> set ?data" "Year ?rb = 2000" by code_simp+
  have rr: "?rr \<in> set ?data" "Year ?rr = 2010" "Municipality ?rr = Municipality ?rb" by code_simp+
  have ob: "?ob \<in> set ?data" "Year ?ob = 2000" by code_simp+
  have or: "?or \<in> set ?data" "Year ?or = 2010" "Municipality ?or = Municipality ?ob" by code_simp+
  have name: "Municipality ?rb = ''Aarhus''" "Municipality ?ob = ''Odense''"
    by (simp_all add: mk_row_def)
  have v1: "np_round_f64 (fmul (fdiv (fsub (AvgSalesPrice ?rr) (AvgSalesPrice ?rb)) (AvgSalesPrice ?rb))
              (Fin 100)) 1 = round_f64 (287 / 10)"
    by code_simp
  have v2: "np_round_f64 (fmul (fdiv (fsub (AvgSalesPrice ?or) (AvgSalesPrice ?ob)) (AvgSalesPrice ?ob))
              (Fin 100)) 1 = Fin 50"
    by code_simp
  have v3: "round_f64 (287 / 10) = Fin (8078331831595827 / 2 ^ 48)" by code_simp
  have v4: "round_f64 (287 / 10) \<noteq> round_f64 (288 / 10)" by code_simp
  have f64: "is_f64 2.25" by code_simp
  have v5: "M2AffordedTotal ?rb = Fin 0 \<and> M2AffordedTotal ?rr = Fin 2.25 \<and> (2.25 :: real) \<noteq> 0
              \<and> is_f64 2.25"
    using f64 by (simp add: mk_row_def)
  from pct_change_formula [OF refl col1 dist cast1 rb rr]
  have a: "\<exists>tbl t. page_hist_changes_table pct_panel ?pts 2000 2010 ''AvgSalesPrice'' = Inr tbl
           \<and> t \<in> set tbl \<and> mncp t = ''Aarhus'' \<and> pct_change t = round_f64 (287 / 10)"
    unfolding name v1 by blast
  from pct_change_formula [OF refl col1 dist cast1 ob or]
  have b: "\<exists>tbl t. page_hist_changes_table pct_panel ?pts 2000 2010 ''AvgSalesPrice'' = Inr tbl
           \<and> t \<in> set tbl \<and> mncp t = ''Odense'' \<and> pct_change t = Fin 50"
    unfolding name v2 by blast
  have v6: "(if 0 < (2.25 :: real) then PosInf else NegInf) = PosInf" by simp
  from pct_change_formula [OF refl col2 dist cast2 rb rr] v5
  have "\<exists>tbl t. page_hist_changes_table pct_panel ?pts 2000 2010 ''M2AffordedTotal'' = Inr tbl
           \<and> t \<in> set tbl \<and> mncp t = ''Aarhus''
           \<and> pct_change t = (if 0 < (2.25 :: real) then PosInf else NegInf) \<and> pct_change t \<noteq> Fin 0"
    unfolding name by blast
  then have c: "\<exists>tbl t. page_hist_changes_table pct_panel ?pts 2000 2010 ''M2AffordedTotal'' = Inr tbl
           \<and> t \<in> set tbl \<and> mncp t = ''Aarhus''
           \<and> pct_change t = PosInf \<and> pct_change t \<noteq> Fin 0"
    unfolding v6 .
  from a v3 v4 b f64 c show ?thesis by (intro conjI)
qed

section \<open>Equal base and reference year (claim C5)\<close>

lemma hist_same_year_rows:
  "r \<in> set (page_hist_changes_filter df pts [y, y]) \<Longrightarrow> Year r = y"
  by (simp add: page_hist_changes_filter_def)

text \<open>
  With the base year equal to the reference year the page computes a table: both year
  cells of a line read the one year column and the change is 0.0.
\<close>

theorem same_year_counterexample:
  "page_hist_changes_table complete_panel [''Actual price'', ''Estimated price'']
     2010 2010 ''M2AffordedTotal''
   = Inr [\<lparr>mncp = ''Aarhus'', base_val = Fin 2.3, ref_val = Fin 2.3, pct_change = Fin 0\<rparr>,
          \<lparr>mncp = ''Odense'', base_val = Fin 3, ref_val = Fin 3, pct_change = Fin 0\<rparr>]"
  by code_simp

text \<open>
  Claim C5, as the code has it. The computation does not check that the two years
  differ. When they are the same year, the year has rows, no two of them share their
  municipality, the value column exists and (for the price) every value is finite, the
  result is a table with one line for each municipality that has a row of that year; in
  every line the base value equals the reference value and the "% change" is 0.0, or
  \<open>NaN\<close> where the value is 0 or not finite.
\<close>

theorem same_year_table:
  assumes data: "data = page_hist_changes_filter df price_types [year, year]"
    and col: "column metric_for_use = Some f"
    and dist: "distinct (map (\<lambda>r. (Municipality r, Year r)) data)"
    and nonempty: "data \<noteq> []"
    and cast: "metric_for_use = ''AvgSalesPrice'' \<longrightarrow> (\<forall>r \<in> set data. is_finite (f r))"
  shows "\<exists>tbl. page_hist_changes_table df price_types year year metric_for_use = Inr tbl
           \<and> set (map mncp tbl) = Municipality ` set data
           \<and> (\<forall>t \<in> set tbl. base_val t = ref_val t
                               \<and> (pct_change t = Fin 0 \<or> pct_change t = NaN))"
proof -
  define t where "t = unstack f (page_hist_changes_sorted data)"
  define dec :: nat where "dec = (if metric_for_use = ''AvgSalesPrice'' then 0 else 1)"
  define tbl where "tbl = map (\<lambda>m. \<lparr>mncp = m,
                       base_val = np_round (pcell t m year) dec,
                       ref_val = np_round (pcell t m year) dec,
                       pct_change = pct_change_of (pcell t m year) (pcell t m year)\<rparr>)
                     (pindex t)"
  have years: "Year r = year" if "r \<in> set data" for r
    using that data by (simp add: hist_same_year_rows)
  from nonempty obtain r0 where "r0 \<in> set data" by (cases data) auto
  then have yb: "\<exists>r \<in> set data. Year r = year" using years by blast
  have cast': "metric_for_use = ''AvgSalesPrice'' \<longrightarrow>
                 (\<forall>m \<in> Municipality ` set data. \<forall>y \<in> {year, year}.
                    \<exists>r \<in> set data. Municipality r = m \<and> Year r = y \<and> is_finite (f r))"
    using cast years by auto
  have res: "page_hist_changes_table df price_types year year metric_for_use = Inr tbl"
    using hist_table_result [OF col dist [unfolded data] yb [unfolded data] yb [unfolded data]
        cast' [unfolded data]]
    by (simp add: tbl_def t_def dec_def data)
  have names: "map mncp tbl = pindex t" by (simp add: tbl_def comp_def)
  have idx: "set (pindex t) = Municipality ` set data"
    by (simp add: t_def hist_table_index)
  have lines: "base_val c = ref_val c \<and> (pct_change c = Fin 0 \<or> pct_change c = NaN)"
    if "c \<in> set tbl" for c
  proof -
    from that obtain m where
      "base_val c = np_round (pcell t m year) dec" "ref_val c = np_round (pcell t m year) dec"
      "pct_change c = pct_change_of (pcell t m year) (pcell t m year)"
      by (auto simp: tbl_def)
    with pct_change_of_same [of "pcell t m year"] show ?thesis by simp
  qed
  have sm: "set (map mncp tbl) = Municipality ` set data"
    by (simp only: names idx)
  from res sm lines show ?thesis by blast
qed

theorem same_year_table_witness:
  "\<exists>tbl. page_hist_changes_table complete_panel [''Actual price'', ''Estimated price'']
            2010 2010 ''AvgSalesPrice'' = Inr tbl
         \<and> set (map mncp tbl) = {''Aarhus'', ''Odense''}"
proof -
  let ?pts = "[''Actual price'', ''Estimated price'']"
  let ?data = "page_hist_changes_filter complete_panel ?pts [2010, 2010]"
  have col: "column ''AvgSalesPrice'' = Some AvgSalesPrice" by (simp add: column_def)
  have dist: "distinct (map (\<lambda>r. (Municipality r, Year r)) ?data)" by code_simp
  have ne: "?data \<noteq> []" by code_simp
  have cast: "''AvgSalesPrice'' = ''AvgSalesPrice'' \<longrightarrow> (\<forall>r \<in> set ?data. is_finite (AvgSalesPrice r))"
    by code_simp
  have names: "Municipality ` set ?data = {''Aarhus'', ''Odense''}" by code_simp
  from same_year_table [OF refl col dist ne cast] show ?thesis
    unfolding names by blast
qed

section \<open>Municipalities with a missing year (claim C4)\<close>

text \<open>
  Odense has no row for the base year 2000: it stays in the table, with \<open>NaN\<close> as
  its base value and as its "% change".
\<close>

theorem missing_year_counterexample:
  "page_hist_changes_table gap_panel [''Actual price'', ''Estimated price'']
     2000 2010 ''M2AffordedTotal''
   = Inr [\<lparr>mncp = ''Aarhus'', base_val = Fin 0, ref_val = Fin 2.3, pct_change = PosInf\<rparr>,
          \<lparr>mncp = ''Odense'', base_val = NaN, ref_val = Fin 3, pct_change = NaN\<rparr>]"
  by code_simp

text \<open>
  Claim C4, as the code has it. For a metric other than the price, when no two rows
  share municipality and year and each of the two years has some row, the table has a
  line for every municipality that has a row for at least one of the two years: no
  municipality is dropped. A municipality with no row for the base year has \<open>NaN\<close>
  as its base value and as its "% change", and likewise for the reference year. In the
  summary by type of change, the municipalities (other than the national average) whose
  "% change" is \<open>NaN\<close> are counted under "Unknown change".
\<close>

theorem missing_year_kept:
  assumes data: "data = page_hist_changes_filter df price_types [base_year, ref_year]"
    and col: "column metric_for_use = Some f"
    and metric: "metric_for_use \<noteq> ''AvgSalesPrice''"
    and dist: "distinct (map (\<lambda>r. (Municipality r, Year r)) data)"
    and yb: "\<exists>r \<in> set data. Year r = base_year"
    and yr: "\<exists>r \<in> set data. Year r = ref_year"
  shows "\<exists>tbl. page_hist_changes_table df price_types base_year ref_year metric_for_use = Inr tbl
           \<and> set (map mncp tbl) = Municipality ` set data
           \<and> (\<forall>t \<in> set tbl.
                 (\<forall>r \<in> set data. \<not> (Municipality r = mncp t \<and> Year r = base_year))
                   \<longrightarrow> base_val t = NaN \<and> pct_change t = NaN)
           \<and> (\<forall>t \<in> set tbl.
                 (\<forall>r \<in> set data. \<not> (Municipality r = mncp t \<and> Year r = ref_year))
                   \<longrightarrow> ref_val t = NaN \<and> pct_change t = NaN)
           \<and> (\<forall>t \<in> set tbl. mncp t \<noteq> ''National average'' \<and> pct_change t = NaN \<longrightarrow>
                 (''Unknown change'',
                  length (remdups (map mncp
                    (filter (\<lambda>c. mncp c \<noteq> ''National average'' \<and> pct_change c = NaN) tbl))))
                 \<in> set (page_hist_changes_chart tbl metric_for_use))"
proof -
  define t where "t = unstack f (page_hist_changes_sorted data)"
  define tbl where "tbl = map (\<lambda>m. \<lparr>mncp = m,
                       base_val = np_round (pcell t m base_year) 1,
                       ref_val = np_round (pcell t m ref_year) 1,
                       pct_change = pct_change_of (pcell t m ref_year) (pcell t m base_year)\<rparr>)
                     (pindex t)"
  have cast: "metric_for_use = ''AvgSalesPrice'' \<longrightarrow>
                 (\<forall>m \<in> Municipality ` set data. \<forall>y \<in> {base_year, ref_year}.
                    \<exists>r \<in> set data. Municipality r = m \<and> Year r = y \<and> is_finite (f r))"
    using metric by simp
  have res: "page_hist_changes_table df price_types base_year ref_year metric_for_use = Inr tbl"
    using hist_table_result [OF col dist [unfolded data] yb [unfolded data] yr [unfolded data]
        cast [unfolded data]] metric
    by (simp add: tbl_def t_def data)
  have names: "map mncp tbl = pindex t" by (simp add: tbl_def comp_def)
  have idx: "set (pindex t) = Municipality ` set data"
    by (simp add: t_def hist_table_index)
  have nan: "np_round NaN d = NaN" for d by (simp add: np_round_def)
  have no_base: "base_val c = NaN \<and> pct_change c = NaN"
    if "c \<in> set tbl" "\<forall>r \<in> set data. \<not> (Municipality r = mncp c \<and> Year r = base_year)" for c
  proof -
    from that(2) have "pcell t (mncp c) base_year = NaN"
      unfolding t_def by (rule hist_table_cell_missing)
    with that(1) show ?thesis by (auto simp: tbl_def nan pct_change_of_NaN)
  qed
  have no_ref: "ref_val c = NaN \<and> pct_change c = NaN"
    if "c \<in> set tbl" "\<forall>r \<in> set data. \<not> (Municipality r = mncp c \<and> Year r = ref_year)" for c
  proof -
    from that(2) have "pcell t (mncp c) ref_year = NaN"
      unfolding t_def by (rule hist_table_cell_missing)
    with that(1) show ?thesis by (auto simp: tbl_def nan pct_change_of_NaN)
  qed
  have sm: "set (map mncp tbl) = Municipality ` set data"
    by (simp only: names idx)
  have chart: "(''Unknown change'',
                  length (remdups (map mncp
                    (filter (\<lambda>c. mncp c \<noteq> ''National average'' \<and> pct_change c = NaN) tbl))))
                 \<in> set (page_hist_changes_chart tbl metric_for_use)"
    if "c \<in> set tbl" "mncp c \<noteq> ''National average'' \<and> pct_change c = NaN" for c
    using that by (intro chart_unknown_count [of c]) simp_all
  show ?thesis
  proof (intro exI [of _ tbl] conjI)
    show "page_hist_changes_table df price_types base_year ref_year metric_for_use = Inr tbl"
      by (rule res)
    show "set (map mncp tbl) = Municipality ` set data" by (rule sm)
    show "\<forall>t \<in> set tbl.
            (\<forall>r \<in> set data. \<not> (Municipality r = mncp t \<and> Year r = base_year))
              \<longrightarrow> base_val t = NaN \<and> pct_change t = NaN"
      using no_base by blast
    show "\<forall>t \<in> set tbl.
            (\<forall>r \<in> set data. \<not> (Municipality r = mncp t \<and> Year r = ref_year))
              \<longrightarrow> ref_val t = NaN \<and> pct_change t = NaN"
      using no_ref by blast
    show "\<forall>t \<in> set tbl. mncp t \<noteq> ''National average'' \<and> pct_change t = NaN \<longrightarrow>
            (''Unknown change'',
             length (remdups (map mncp
               (filter (\<lambda>c. mncp c \<noteq> ''National average'' \<and> pct_change c = NaN) tbl))))
            \<in> set (page_hist_changes_chart tbl metric_for_use)"
      using chart by (intro ballI impI)
  qed
qed


theorem missing_year_kept_witness:
  "\<exists>tbl t. page_hist_changes_table gap_panel [''Actual price'', ''Estimated price'']
               2000 2010 ''M2AffordedTotal'' = Inr tbl
         \<and> t \<in> set tbl \<and> mncp t = ''Odense'' \<and> base_val t = NaN \<and> pct_change t = NaN
         \<and> (''Unknown change'',
             length (remdups (map mncp
               (filter (\<lambda>c. mncp c \<noteq> ''National average'' \<and> pct_change c = NaN) tbl))))
            \<in> set (page_hist_changes_chart tbl ''M2AffordedTotal'')"
proof -
  let ?pts = "[''Actual price'', ''Estimated price'']"
  let ?data = "page_hist_changes_filter gap_panel ?pts [2000, 2010]"
  have col: "column ''M2AffordedTotal'' = Some M2AffordedTotal" by (simp add: column_def)
  have metric: "''M2AffordedTotal'' \<noteq> ''AvgSalesPrice''" by simp
  have dist: "distinct (map (\<lambda>r. (Municipality r, Year r)) ?data)" by code_simp
  have yb: "\<exists>r \<in> set ?data. Year r = 2000" and yr: "\<exists>r \<in> set ?data. Year r = 2010"
    by code_simp+
  have names: "Municipality ` set ?data = {''Aarhus'', ''Odense''}" by code_simp
  have gap: "\<forall>r \<in> set ?data. \<not> (Municipality r = ''Odense'' \<and> Year r = 2000)" by code_simp
  have odense: "''Odense'' \<noteq> ''National average''" by simp
  from missing_year_kept [OF refl col metric dist yb yr] obtain tbl where
    res: "page_hist_changes_table gap_panel ?pts 2000 2010 ''M2AffordedTotal'' = Inr tbl"
    and sm: "set (map mncp tbl) = {''Aarhus'', ''Odense''}"
    and nb: "\<forall>t \<in> set tbl.
               (\<forall>r \<in> set ?data. \<not> (Municipality r = mncp t \<and> Year r = 2000))
                 \<longrightarrow> base_val t = NaN \<and> pct_change t = NaN"
    and ch: "\<forall>t \<in> set tbl. mncp t \<noteq> ''National average'' \<and> pct_change t = NaN \<longrightarrow>
               (''Unknown change'',
                length (remdups (map mncp
                  (filter (\<lambda>c. mncp c \<noteq> ''National average'' \<and> pct_change c = NaN) tbl))))
               \<in> set (page_hist_changes_chart tbl ''M2AffordedTotal'')"
    unfolding names by blast
  from sm have "''Odense'' \<in> set (map mncp tbl)" by simp
  then obtain t where t: "t \<in> set tbl" "mncp t = ''Odense''" by auto
  with nb gap have nan: "base_val t = NaN \<and> pct_change t = NaN" by simp
  from t(2) odense nan have "mncp t \<noteq> ''National average'' \<and> pct_change t = NaN"
    by simp
  with ch t(1) have cnt: "(''Unknown change'',
                length (remdups (map mncp
                  (filter (\<lambda>c. mncp c \<noteq> ''National average'' \<and> pct_change c = NaN) tbl))))
               \<in> set (page_hist_changes_chart tbl ''M2AffordedTotal'')"
    by (elim ballE [of _ _ t] impE) simp_all
  from res t nan cnt show ?thesis by (intro exI [of _ tbl] exI [of _ t]) simp
qed

text \<open>
  With the price as metric the same table is not computed: the cast of the year columns
  to integers raises on the missing cell.
\<close>

lemma missing_year_price_raises:
  "page_hist_changes_table gap_panel [''Actual price'', ''Estimated price'']
     2000 2010 ''AvgSalesPrice'' = Inl IntCastingNaNError"
  by code_simp

end
